theory Spec2Isabelle
  imports Main "HOL-Library.AList"
begin

section \<open>Strings\<close>

text \<open>
  A JavaScript string is modelled by the bytes of its UTF-8 encoding, a \<^typ>\<open>string\<close>.
  The characters the code singles out (comma, double quote, line feed, slash, the decimal
  digits, the letters of \<open>yes\<close> and \<open>true\<close>) are ASCII, and an ASCII byte never occurs inside
  the encoding of another character: scanning, splitting and quoting act on the bytes as
  they act on the characters.
\<close>

definition NL :: char where
  "NL = CHR 0x0A"

definition DQ :: char where
  "DQ = CHR 0x22"

text \<open>
  The characters \<open>String.prototype.trim\<close> removes, each in its encoding: tab, line feed,
  vertical tab, form feed, carriage return, space, U+00A0, U+1680, U+2000 to U+200A, U+2028,
  U+2029, U+202F, U+205F, U+3000 and U+FEFF.
\<close>

definition whiteSpace :: "string list" where
  "whiteSpace =
     [[CHR 0x09], [CHR 0x0A], [CHR 0x0B], [CHR 0x0C], [CHR 0x0D], [CHR 0x20],
      [CHR 0xC2, CHR 0xA0], [CHR 0xE1, CHR 0x9A, CHR 0x80],
      [CHR 0xE2, CHR 0x80, CHR 0x80], [CHR 0xE2, CHR 0x80, CHR 0x81],
      [CHR 0xE2, CHR 0x80, CHR 0x82], [CHR 0xE2, CHR 0x80, CHR 0x83],
      [CHR 0xE2, CHR 0x80, CHR 0x84], [CHR 0xE2, CHR 0x80, CHR 0x85],
      [CHR 0xE2, CHR 0x80, CHR 0x86], [CHR 0xE2, CHR 0x80, CHR 0x87],
      [CHR 0xE2, CHR 0x80, CHR 0x88], [CHR 0xE2, CHR 0x80, CHR 0x89],
      [CHR 0xE2, CHR 0x80, CHR 0x8A], [CHR 0xE2, CHR 0x80, CHR 0xA8],
      [CHR 0xE2, CHR 0x80, CHR 0xA9], [CHR 0xE2, CHR 0x80, CHR 0xAF],
      [CHR 0xE2, CHR 0x81, CHR 0x9F], [CHR 0xE3, CHR 0x80, CHR 0x80],
      [CHR 0xEF, CHR 0xBB, CHR 0xBF]]"

text \<open>Removing from the front of \<open>s\<close> every character whose encoding is in \<open>ws\<close>.\<close>

fun stripLeading :: "string list \<Rightarrow> string \<Rightarrow> string" where
  "stripLeading ws [] = []"
| "stripLeading ws (c # cs) =
     (case filter (\<lambda>w. w \<noteq> [] \<and> take (length w) (c # cs) = w) ws of
        [] \<Rightarrow> c # cs
      | w # _ \<Rightarrow> stripLeading ws (drop (length w - 1) cs))"

text \<open>\<open>s.trim()\<close>: from the front, and from the back on the reversed bytes.\<close>

definition trim :: "string \<Rightarrow> string" where
  "trim s = rev (stripLeading (map rev whiteSpace) (rev (stripLeading whiteSpace s)))"

text \<open>
  \<open>s.toLowerCase()\<close> on the ASCII letters. The code lowers a value only to compare it with
  \<open>yes\<close> and \<open>true\<close>; no character outside ASCII lowers to text made of their letters, so
  leaving the other bytes as they are gives the same comparison.
\<close>

definition lowerChar :: "char \<Rightarrow> char" where
  "lowerChar c = (let n = of_char c :: nat in if 65 \<le> n \<and> n \<le> 90 then char_of (n + 32) else c)"

definition toLowerCase :: "string \<Rightarrow> string" where
  "toLowerCase s = map lowerChar s"

text \<open>\<open>String(n)\<close> for a non-negative integer: its decimal digits.\<close>

definition digit :: "nat \<Rightarrow> char" where
  "digit d = char_of (48 + d)"

fun String_of :: "nat \<Rightarrow> string" where
  "String_of n = (if n < 10 then [digit n] else String_of (n div 10) @ [digit (n mod 10)])"

declare String_of.simps [simp del]

text \<open>\<open>s.padStart(n, '0')\<close>: zeros in front up to length \<open>n\<close>, nothing when \<open>s\<close> is longer.\<close>

definition padStart :: "nat \<Rightarrow> char \<Rightarrow> string \<Rightarrow> string" where
  "padStart n c s = replicate (n - length s) c @ s"

text \<open>\<open>xs.join(sep)\<close>.\<close>

fun join :: "string \<Rightarrow> string list \<Rightarrow> string" where
  "join sep [] = []"
| "join sep [x] = x"
| "join sep (x # y # ys) = x @ sep @ join sep (y # ys)"

text \<open>\<open>s.split(sep)\<close> for a separator of one character: the empty string splits into one
  empty piece.\<close>

fun splitOn :: "char \<Rightarrow> string \<Rightarrow> string list" where
  "splitOn sep [] = [[]]"
| "splitOn sep (c # cs) =
     (if c = sep then [] # splitOn sep cs
      else (case splitOn sep cs of l # ls \<Rightarrow> (c # l) # ls | [] \<Rightarrow> [[c]]))"

definition split_lines :: "string \<Rightarrow> string list" where
  "split_lines s = splitOn NL s"

text \<open>\<open>s.length\<close>, the number of UTF-16 code units: one for every character, and one more
  for a character encoded in four bytes.\<close>

definition utf16Length :: "string \<Rightarrow> nat" where
  "utf16Length s =
     length (filter (\<lambda>c. \<not> (128 \<le> (of_char c :: nat) \<and> (of_char c :: nat) < 192)) s)
       + length (filter (\<lambda>c. 240 \<le> (of_char c :: nat)) s)"

section \<open>Test cases and mapping rows\<close>

record TestCase =
  TestCaseID :: string
  TestDescription :: string
  TestSteps :: string
  ExpectedResults :: string
  TestCaseType :: string
  Subtype :: string

text \<open>
  A parsed row is a JavaScript object whose keys are header names: an association list
  in insertion order, with one entry per key.
\<close>

type_synonym CSVRow = "(string \<times> string) list"

text \<open>
  \<open>row[header] = value\<close>. Assigning a string to the key \<open>__proto__\<close> of a plain object
  creates no property.
\<close>

definition setProp :: "string \<Rightarrow> string \<Rightarrow> CSVRow \<Rightarrow> CSVRow" where
  "setProp k v row = (if k = ''__proto__'' then row else AList.update k v row)"

text \<open>\<open>row.key || dflt\<close>: the default replaces a missing and an empty value.\<close>

definition orElse :: "string option \<Rightarrow> string \<Rightarrow> string" where
  "orElse v dflt = (case v of None \<Rightarrow> dflt | Some s \<Rightarrow> if s = [] then dflt else s)"

section \<open>Parsing the mapping CSV\<close>

text \<open>
  \<open>parseCSVLine\<close>: the loop over the characters of a line, with the fields found so
  far, the field being read and the quoting flag.
\<close>

fun parseCSVLine_loop :: "string list \<Rightarrow> string \<Rightarrow> bool \<Rightarrow> string \<Rightarrow> string list" where
  "parseCSVLine_loop result current inQuotes [] = result @ [trim current]"
| "parseCSVLine_loop result current inQuotes (c # cs) =
     (if c = DQ \<and> inQuotes \<and> (case cs of [] \<Rightarrow> False | d # _ \<Rightarrow> d = DQ)
        then parseCSVLine_loop result (current @ [DQ]) inQuotes (tl cs)
      else if c = DQ then parseCSVLine_loop result current (\<not> inQuotes) cs
      else if c = CHR '','' \<and> \<not> inQuotes then parseCSVLine_loop (result @ [trim current]) [] inQuotes cs
      else parseCSVLine_loop result (current @ [c]) inQuotes cs)"

definition parseCSVLine :: "string \<Rightarrow> string list" where
  "parseCSVLine line = parseCSVLine_loop [] [] False line"

text \<open>
  One data line becomes a row: header \<open>i\<close> receives value \<open>i\<close> when that value exists
  and is not empty. Pairing the two lists position by position leaves out exactly the
  headers without a value.
\<close>

definition buildRow :: "string list \<Rightarrow> string list \<Rightarrow> CSVRow" where
  "buildRow headers values =
     fold (\<lambda>(header, v) row. if v \<noteq> [] then setProp header v row else row) (zip headers values) []"

definition parseCSV :: "string \<Rightarrow> CSVRow list" where
  "parseCSV csvContent =
     (let lines = split_lines (trim csvContent) in
      if length lines = 0 then []
      else
        let headers = parseCSVLine (hd lines);
            rows = map (\<lambda>line. buildRow headers (parseCSVLine line)) (tl lines)
        in filter (\<lambda>row. length row > 0) rows)"

section \<open>The generator\<close>

definition isRequired :: "CSVRow \<Rightarrow> bool" where
  "isRequired row =
     (case map_of row ''Required'' of
        None \<Rightarrow> False
      | Some r \<Rightarrow> toLowerCase r = ''yes'' \<or> toLowerCase r = ''true'')"

definition tcId :: "string \<Rightarrow> nat \<Rightarrow> string \<Rightarrow> string" where
  "tcId batchNumber counter suffix =
     ''B_'' @ batchNumber @ ''_TC_'' @ padStart 3 (CHR ''0'') (String_of counter) @ suffix"

text \<open>
  The test cases one iteration of the \<open>forEach\<close> pushes for the row at \<open>index\<close>, the
  first of them numbered \<open>counter\<close>; every push takes the next number.
\<close>

definition rowCases :: "string \<Rightarrow> nat \<Rightarrow> nat \<Rightarrow> CSVRow \<Rightarrow> TestCase list" where
  "rowCases batchNumber index counter row =
    (let sourceField = orElse (map_of row ''Source_Field'') (''Field_'' @ String_of (index + 1));
         targetResource = orElse (map_of row ''Target_FHIR_Resource'') ''Resource'';
         fhirAttribute = orElse (map_of row ''FHIR_Attribute'') ''attribute'';
         transformRule = orElse (map_of row ''Transformation_Rule'') ''Direct mapping'';
         dataType = orElse (map_of row ''Data_Type'') ''string''
     in
     [\<lparr>TestCaseID = tcId batchNumber counter ''_functional_positive'',
       TestDescription = ''Validate successful mapping of '' @ sourceField @ '' to ''
          @ targetResource @ ''.'' @ fhirAttribute,
       TestSteps = ''1. Parse input data containing '' @ sourceField
          @ NL # ''2. Extract '' @ sourceField @ '' value''
          @ NL # ''3. Apply transformation: '' @ transformRule
          @ NL # ''4. Map to FHIR '' @ targetResource @ ''.'' @ fhirAttribute
          @ NL # ''5. Validate FHIR resource structure'',
       ExpectedResults = ''FHIR '' @ targetResource @ '' resource created successfully with ''
          @ fhirAttribute @ '' populated correctly as '' @ dataType,
       TestCaseType = ''FUNCTIONAL'',
       Subtype = ''POSITIVE''\<rparr>,
      \<lparr>TestCaseID = tcId batchNumber (counter + 1) ''_functional_negative'',
       TestDescription = ''Validate error handling for invalid '' @ sourceField @ '' data'',
       TestSteps = ''1. Parse input with invalid '' @ dataType @ '' for '' @ sourceField
          @ NL # ''2. Attempt transformation: '' @ transformRule
          @ NL # ''3. Validation fails for '' @ targetResource @ ''.'' @ fhirAttribute
          @ NL # ''4. System logs error with field name and value''
          @ NL # ''5. Return validation error response'',
       ExpectedResults = ''System returns validation error indicating invalid '' @ dataType
          @ '' for '' @ targetResource @ ''.'' @ fhirAttribute,
       TestCaseType = ''FUNCTIONAL'',
       Subtype = ''NEGATIVE''\<rparr>,
      (if isRequired row then
        \<lparr>TestCaseID = tcId batchNumber (counter + 2) ''_edge_case'',
         TestDescription = ''Handle missing required field '' @ sourceField,
         TestSteps = ''1. Parse input with missing '' @ sourceField
            @ NL # ''2. Validate required field check''
            @ NL # ''3. System detects missing '' @ targetResource @ ''.'' @ fhirAttribute
            @ NL # ''4. Log validation error''
            @ NL # ''5. Return appropriate error response'',
         ExpectedResults = ''System returns error indicating required field '' @ sourceField
            @ '' is missing from '' @ targetResource,
         TestCaseType = ''EDGE'',
         Subtype = ''NEGATIVE''\<rparr>
       else
        \<lparr>TestCaseID = tcId batchNumber (counter + 2) ''_edge_case'',
         TestDescription = ''Handle optional field '' @ sourceField @ '' when empty'',
         TestSteps = ''1. Parse input with empty '' @ sourceField
            @ NL # ''2. Check if field is optional''
            @ NL # ''3. Skip mapping for '' @ targetResource @ ''.'' @ fhirAttribute
            @ NL # ''4. Proceed with other mappings''
            @ NL # ''5. Create FHIR resource without this attribute'',
         ExpectedResults = ''FHIR '' @ targetResource @ '' resource created successfully with ''
            @ fhirAttribute @ '' omitted (optional field)'',
         TestCaseType = ''EDGE'',
         Subtype = ''POSITIVE''\<rparr>)]
     @ (if (index + 1) mod 3 = 0 then
        [\<lparr>TestCaseID = tcId batchNumber (counter + 3) ''_regression_positive'',
          TestDescription = ''Verify mapping consistency for '' @ sourceField
             @ '' after system updates'',
          TestSteps = ''1. Establish baseline mapping for '' @ sourceField
             @ NL # ''2. Apply system update/patch''
             @ NL # ''3. Re-test '' @ sourceField @ '' to '' @ targetResource @ ''.''
             @ fhirAttribute @ '' mapping''
             @ NL # ''4. Compare results with baseline''
             @ NL # ''5. Validate no regression in mapping logic'',
          ExpectedResults = sourceField @ '' to '' @ targetResource @ ''.'' @ fhirAttribute
             @ '' mapping produces identical results to baseline; no regression detected'',
          TestCaseType = ''REGRESSION'',
          Subtype = ''POSITIVE''\<rparr>]
       else []))"

text \<open>The state of the loop: the array \<open>testCases\<close> and the variable \<open>counter\<close>.\<close>

definition forEachStep :: "string \<Rightarrow> CSVRow \<times> nat \<Rightarrow> TestCase list \<times> nat \<Rightarrow> TestCase list \<times> nat" where
  "forEachStep batchNumber = (\<lambda>(row, index) (testCases, counter).
     let pushed = rowCases batchNumber index counter row
     in (testCases @ pushed, counter + length pushed))"

definition generateTestCasesFromCSV :: "CSVRow list \<Rightarrow> string \<Rightarrow> TestCase list" where
  "generateTestCasesFromCSV csvRows batchNumber =
     fst (fold (forEachStep batchNumber) (zip csvRows [0..<length csvRows]) ([], 1))"

section \<open>Statistics\<close>

text \<open>
  A breakdown is a JavaScript object used as a counter table:
  \<open>t[k] = (t[k] || 0) + 1\<close> starts a missing key at one and adds one to a present key.
  The keys the generator uses are its five type and subtype literals.
\<close>

type_synonym breakdown = "(string \<times> nat) list"

fun increment :: "string \<Rightarrow> breakdown \<Rightarrow> breakdown" where
  "increment k [] = [(k, 1)]"
| "increment k ((k', n) # rest) =
     (if k = k' then (k', n + 1) # rest else (k', n) # increment k rest)"

record StatisticalSummary =
  TotalTestCases :: nat
  TestCaseTypeBreakdown :: breakdown
  SubtypeBreakdown :: breakdown
  MappingRows :: nat
  UniqueAttributes :: nat

definition calculateStatistics :: "TestCase list \<Rightarrow> CSVRow list \<Rightarrow> StatisticalSummary" where
  "calculateStatistics testCases csvRows =
     (let typeBreakdown = fold (\<lambda>tc t. increment (TestCaseType tc) t) testCases [];
          subtypeBreakdown = fold (\<lambda>tc t. increment (Subtype tc) t) testCases [];
          uniqueAttrs = remdups (filter (\<lambda>a. a \<noteq> [])
             (concat (map (\<lambda>row. case map_of row ''FHIR_Attribute'' of None \<Rightarrow> [] | Some a \<Rightarrow> [a]) csvRows)))
      in \<lparr>TotalTestCases = length testCases,
          TestCaseTypeBreakdown = typeBreakdown,
          SubtypeBreakdown = subtypeBreakdown,
          MappingRows = length csvRows,
          UniqueAttributes = length uniqueAttrs\<rparr>)"

text \<open>
  The response of the generator. Its fields \<open>StatisticalSummary\<close> and \<open>github_url\<close> are
  called \<open>Summary\<close> and \<open>response_github_url\<close> here, the source's names being taken by
  the record of the summary and by the request.
\<close>

record TestCaseResponse =
  TestCases :: "TestCase list"
  Summary :: StatisticalSummary
  response_github_url :: "string option"
  generated_at :: string

section \<open>The derived CSV\<close>

text \<open>\<open>value.replace(/"/g, '""')\<close>.\<close>

primrec doubleQuotes :: "string \<Rightarrow> string" where
  "doubleQuotes [] = []"
| "doubleQuotes (c # cs) = (if c = DQ then DQ # DQ # doubleQuotes cs else c # doubleQuotes cs)"

definition escapeCSV :: "string \<Rightarrow> string" where
  "escapeCSV v =
     (if CHR '','' \<in> set v \<or> DQ \<in> set v \<or> NL \<in> set v
      then DQ # doubleQuotes v @ [DQ]
      else v)"

definition csvHeaders :: "string list" where
  "csvHeaders = [''TestCaseID'', ''TestDescription'', ''TestSteps'', ''ExpectedResults'',
     ''TestCaseType'', ''Subtype'']"

definition csvRow :: "TestCase \<Rightarrow> string list" where
  "csvRow tc = [escapeCSV (TestCaseID tc), escapeCSV (TestDescription tc),
     escapeCSV (TestSteps tc), escapeCSV (ExpectedResults tc),
     escapeCSV (TestCaseType tc), escapeCSV (Subtype tc)]"

definition generateCSV :: "TestCase list \<Rightarrow> string" where
  "generateCSV testCases =
     (let rows = map csvRow testCases;
          csvLines = join '','' csvHeaders # map (join '','') rows
      in join [NL] csvLines)"

section \<open>The job store\<close>

text \<open>
  The store keeps five objects per job, \<open>jobs/{id}/status.json\<close>, \<open>input.csv\<close>,
  \<open>metadata.json\<close>, \<open>results.json\<close> and \<open>output.csv\<close>, in a bucket or under a local
  directory; both backends run the same steps. An object is modelled by the value that
  was serialised into it. Every operation wraps its file or network actions in a handler
  that logs the exception and returns \<open>false\<close> (a write) or \<open>null\<close> (a read); which
  actions raise, and what the clock shows, is given by the environment of the call.
\<close>

type_synonym jobId = string

text \<open>
  Where the objects of a job are. The local backend builds the directory with
  \<open>path.join(mockBasePath, 'jobs', jobId)\<close>, which joins its arguments with a slash and
  normalises the result: empty segments and \<open>.\<close> are dropped, \<open>..\<close> removes the segment
  before it, and nothing above the root. Two ids that resolve to the same directory name
  the same objects. A bucket takes the object name \<open>jobs/{jobId}/status.json\<close> as it is
  written. A location is a list of segments.
\<close>

type_synonym location = "string list"

fun normalize :: "string list \<Rightarrow> string list \<Rightarrow> string list" where
  "normalize acc [] = rev acc"
| "normalize acc (s # ss) =
     (if s = [] \<or> s = ''.'' then normalize acc ss
      else if s = ''..'' then normalize (tl acc) ss
      else normalize (s # acc) ss)"

definition getJobPath :: "jobId \<Rightarrow> location" where
  "getJobPath jobId = normalize [] ([''tmp'', ''gcs-mock'', ''jobs''] @ splitOn (CHR ''/'') jobId)"

datatype JobStatus = pending | processing | completed | failed

record StatusData =
  status :: JobStatus
  created_at :: string
  updated_at :: string
  error :: "string option"

text \<open>
  The fields of \<open>MetadataParams\<close> carry the prefix \<open>m_\<close>, and the creation time of the
  metadata object is \<open>metadata_created_at\<close>, to keep them apart from the fields of the
  request and of the status record.
\<close>

record MetadataParams =
  m_batch_number :: string
  m_user_id :: string
  m_csv_length :: nat
  m_github_url :: "string option"
  m_session_id :: "string option"
  m_batch_size :: "int option"

record Metadata =
  params :: MetadataParams
  metadata_created_at :: string

text \<open>The service: the backend it was constructed with, and the objects stored.\<close>

record Store =
  useRealGCS :: bool
  status_json :: "location \<rightharpoonup> StatusData"
  input_csv :: "location \<rightharpoonup> string"
  metadata_json :: "location \<rightharpoonup> Metadata"
  results_json :: "location \<rightharpoonup> TestCaseResponse"
  output_csv :: "location \<rightharpoonup> string"

definition jobKey :: "Store \<Rightarrow> jobId \<Rightarrow> location" where
  "jobKey st jobId = (if useRealGCS st then [''jobs'', jobId] else getJobPath jobId)"

text \<open>
  The environment of one store operation: \<open>mkdir_ok\<close>, \<open>read_ok\<close> and \<open>write_ok\<close> say that
  creating the job directory, reading an object back and writing an object (to a
  temporary file that is then renamed, or in one call to the bucket) return without
  raising; \<open>clock0\<close> and \<open>clock\<close> are the two readings of \<open>new Date().toISOString()\<close>, in
  the order of the source text.
\<close>

record IO =
  mkdir_ok :: bool
  read_ok :: bool
  write_ok :: bool
  clock0 :: string
  clock :: string

definition readJobStatus :: "Store \<Rightarrow> bool \<Rightarrow> jobId \<Rightarrow> StatusData option" where
  "readJobStatus st ok jobId = (if ok then status_json st (jobKey st jobId) else None)"

text \<open>
  \<open>existingStatus?.created_at || now\<close> keeps a creation time that is there and not empty;
  \<open>...(error && { error })\<close> stores a message that is given and not empty.
\<close>

definition writeJobStatus :: "Store \<Rightarrow> IO \<Rightarrow> jobId \<Rightarrow> JobStatus \<Rightarrow> string option \<Rightarrow> bool \<times> Store" where
  "writeJobStatus st io jobId s err =
     (if \<not> mkdir_ok io then (False, st)
      else
        let existingStatus = readJobStatus st (read_ok io) jobId;
            created = (case existingStatus of
                         None \<Rightarrow> clock0 io
                       | Some e \<Rightarrow> if created_at e = [] then clock0 io else created_at e);
            statusData = \<lparr>status = s, created_at = created, updated_at = clock io,
                          error = (case err of None \<Rightarrow> None
                                   | Some m \<Rightarrow> if m = [] then None else Some m)\<rparr>
        in if \<not> write_ok io then (False, st)
           else (True, st\<lparr>status_json := (status_json st)(jobKey st jobId \<mapsto> statusData)\<rparr>))"

definition writeCSVContent :: "Store \<Rightarrow> IO \<Rightarrow> jobId \<Rightarrow> string \<Rightarrow> bool \<times> Store" where
  "writeCSVContent st io jobId csvContent =
     (if \<not> mkdir_ok io \<or> \<not> write_ok io then (False, st)
      else (True, st\<lparr>input_csv := (input_csv st)(jobKey st jobId \<mapsto> csvContent)\<rparr>))"

definition writeMetadata :: "Store \<Rightarrow> IO \<Rightarrow> jobId \<Rightarrow> MetadataParams \<Rightarrow> bool \<times> Store" where
  "writeMetadata st io jobId ps =
     (if \<not> mkdir_ok io \<or> \<not> write_ok io then (False, st)
      else (True, st\<lparr>metadata_json := (metadata_json st)
              (jobKey st jobId \<mapsto> \<lparr>params = ps, metadata_created_at = clock io\<rparr>)\<rparr>))"

definition writeResults :: "Store \<Rightarrow> IO \<Rightarrow> jobId \<Rightarrow> TestCaseResponse \<Rightarrow> bool \<times> Store" where
  "writeResults st io jobId results =
     (if \<not> mkdir_ok io \<or> \<not> write_ok io then (False, st)
      else (True, st\<lparr>results_json := (results_json st)(jobKey st jobId \<mapsto> results)\<rparr>))"

definition readResults :: "Store \<Rightarrow> bool \<Rightarrow> jobId \<Rightarrow> TestCaseResponse option" where
  "readResults st ok jobId = (if ok then results_json st (jobKey st jobId) else None)"

definition writeCSVOutput :: "Store \<Rightarrow> IO \<Rightarrow> jobId \<Rightarrow> string \<Rightarrow> bool \<times> Store" where
  "writeCSVOutput st io jobId csvContent =
     (if \<not> mkdir_ok io \<or> \<not> write_ok io then (False, st)
      else (True, st\<lparr>output_csv := (output_csv st)(jobKey st jobId \<mapsto> csvContent)\<rparr>))"

section \<open>The orchestrator\<close>

record TestCaseRequest =
  csv_mapping :: string
  batch_number :: string
  user_id :: string
  github_url :: "string option"
  session_id :: "string option"
  batch_size :: "int option"

text \<open>A thrown value: an \<open>Error\<close> with its message, or anything else.\<close>

datatype exn = Error string | NonError

definition errorMessage :: "exn \<Rightarrow> string" where
  "errorMessage e = (case e of Error m \<Rightarrow> m | NonError \<Rightarrow> ''Unknown error'')"

text \<open>
  \<open>generateTestCases\<close> up to its \<open>return\<close>: the three awaited writes, whose results it
  does not look at. No store operation raises, so the handler around them (which would
  write \<open>failed\<close> and rethrow) is never entered. The function returns the job id it was
  given by \<open>uuidv4\<close>, and has scheduled the background task for that id and request.
\<close>

record SubmitEnv =
  uuid :: jobId
  io_pending :: IO
  io_input :: IO
  io_metadata :: IO

definition generateTestCases :: "Store \<Rightarrow> SubmitEnv \<Rightarrow> TestCaseRequest \<Rightarrow> jobId \<times> Store" where
  "generateTestCases st env request =
     (let jobId = uuid env;
          (_, st1) = writeJobStatus st (io_pending env) jobId pending None;
          (_, st2) = writeCSVContent st1 (io_input env) jobId (csv_mapping request);
          metadata = \<lparr>m_batch_number = batch_number request,
                      m_user_id = user_id request,
                      m_csv_length = utf16Length (csv_mapping request),
                      m_github_url = github_url request,
                      m_session_id = session_id request,
                      m_batch_size = batch_size request\<rparr>;
          (_, st3) = writeMetadata st2 (io_metadata env) jobId metadata
      in (jobId, st3))"

text \<open>
  The background task. Its four computing steps return on every string; \<open>forced\<close> lets
  one of them raise all the same (a failure forced from outside, the way a test of the
  handler does it), so that the handler is part of the model.
\<close>

datatype step = ParseCSV | GenerateCases | Statistics | DeriveCSV

record RunEnv =
  io_processing :: IO
  io_results :: IO
  io_output :: IO
  io_completed :: IO
  io_failed :: IO
  generated_clock :: string
  forced :: "step \<Rightarrow> exn option"

definition buildResponse :: "TestCaseRequest \<Rightarrow> string \<Rightarrow> TestCaseResponse" where
  "buildResponse request now =
     (let csvRows = parseCSV (csv_mapping request);
          testCases = generateTestCasesFromCSV csvRows (batch_number request)
      in \<lparr>TestCases = testCases,
          Summary = calculateStatistics testCases csvRows,
          response_github_url = github_url request,
          generated_at = now\<rparr>)"

text \<open>
  The \<open>try\<close> block: \<open>Inl e\<close> when a step raised \<open>e\<close>, with the store as it was then.
  The pause of 2.5 seconds after the first status write has no effect on the store.
\<close>

definition processJob :: "Store \<Rightarrow> RunEnv \<Rightarrow> jobId \<Rightarrow> TestCaseRequest \<Rightarrow> (exn + unit) \<times> Store" where
  "processJob st env jobId request =
     (let (_, st1) = writeJobStatus st (io_processing env) jobId processing None in
      case forced env ParseCSV of Some e \<Rightarrow> (Inl e, st1) | None \<Rightarrow>
      case forced env GenerateCases of Some e \<Rightarrow> (Inl e, st1) | None \<Rightarrow>
      case forced env Statistics of Some e \<Rightarrow> (Inl e, st1) | None \<Rightarrow>
      let response = buildResponse request (generated_clock env);
          (_, st2) = writeResults st1 (io_results env) jobId response
      in
      case forced env DeriveCSV of Some e \<Rightarrow> (Inl e, st2) | None \<Rightarrow>
      let csvOutput = generateCSV (TestCases response);
          (_, st3) = writeCSVOutput st2 (io_output env) jobId csvOutput;
          (_, st4) = writeJobStatus st3 (io_completed env) jobId completed None
      in (Inr (), st4))"

text \<open>The whole callback: the \<open>try\<close> block and its handler.\<close>

definition backgroundTask :: "Store \<Rightarrow> RunEnv \<Rightarrow> jobId \<Rightarrow> TestCaseRequest \<Rightarrow> (exn + unit) \<times> Store" where
  "backgroundTask st env jobId request =
     (case processJob st env jobId request of
        (Inr u, st') \<Rightarrow> (Inr u, st')
      | (Inl e, st') \<Rightarrow>
          let (_, st'') = writeJobStatus st' (io_failed env) jobId failed (Some (errorMessage e))
          in (Inr (), st''))"

section \<open>The routes\<close>

text \<open>
  The body of a submission: each field is absent or holds a JSON value. \<open>JOther\<close> stands
  for \<open>null\<close>, booleans, arrays and objects.
\<close>

datatype json = JString string | JNumber int | JOther

record Body =
  body_csv_mapping :: "json option"
  body_batch_number :: "json option"
  body_user_id :: "json option"
  body_github_url :: "json option"
  body_session_id :: "json option"
  body_batch_size :: "json option"

record Validated =
  v_csv_mapping :: "string option"
  v_batch_number :: string
  v_user_id :: string
  v_github_url :: "string option"
  v_session_id :: "string option"
  v_batch_size :: "int option"

text \<open>\<open>z.string().optional()\<close>, \<open>z.string().min(1)\<close> and \<open>z.number().optional()\<close>.\<close>

definition optionalString :: "json option \<Rightarrow> (string option) option" where
  "optionalString j = (case j of None \<Rightarrow> Some None | Some (JString s) \<Rightarrow> Some (Some s) | Some _ \<Rightarrow> None)"

definition requiredString :: "json option \<Rightarrow> string option" where
  "requiredString j = (case j of Some (JString s) \<Rightarrow> if length s \<ge> 1 then Some s else None | _ \<Rightarrow> None)"

definition optionalNumber :: "json option \<Rightarrow> (int option) option" where
  "optionalNumber j = (case j of None \<Rightarrow> Some None | Some (JNumber n) \<Rightarrow> Some (Some n) | Some _ \<Rightarrow> None)"

text \<open>\<open>schema.parse\<close>: \<open>None\<close> when it throws a validation error.\<close>

definition schema_parse :: "Body \<Rightarrow> Validated option" where
  "schema_parse body =
     (case (optionalString (body_csv_mapping body), requiredString (body_batch_number body),
            requiredString (body_user_id body), optionalString (body_github_url body),
            optionalString (body_session_id body), optionalNumber (body_batch_size body)) of
        (Some c, Some b, Some u, Some g, Some s, Some n) \<Rightarrow>
          Some \<lparr>v_csv_mapping = c, v_batch_number = b, v_user_id = u, v_github_url = g,
                v_session_id = s, v_batch_size = n\<rparr>
      | _ \<Rightarrow> None)"

text \<open>
  \<open>githubService.fetchCSVFromGitHub\<close> belongs to another module; the route is given
  what the call does for a URL: it raises, or returns a result object.
\<close>

record FetchResult =
  success :: bool
  content :: "string option"
  fetch_error :: "string option"

datatype SubmitResponse =
    Started jobId
  | FetchFailed "string option"
  | NoCSVContent
  | StartFailed string

text \<open>
  \<open>POST /api/ccda-gen-test-cases\<close>. The result is the response, the store, and the
  background task the call has scheduled, if any.
\<close>

definition submitRoute ::
  "Store \<Rightarrow> (string \<Rightarrow> exn + FetchResult) \<Rightarrow> SubmitEnv \<Rightarrow> Body
     \<Rightarrow> SubmitResponse \<times> Store \<times> (jobId \<times> TestCaseRequest) option" where
  "submitRoute st fetchCSVFromGitHub env body =
     (case schema_parse body of
        None \<Rightarrow> (StartFailed ''validation error'', st, None)
      | Some validatedData \<Rightarrow>
          let csvContent = (case v_csv_mapping validatedData of None \<Rightarrow> [] | Some c \<Rightarrow> c);
              fetched =
                (case v_github_url validatedData of
                   None \<Rightarrow> Inr csvContent
                 | Some url \<Rightarrow>
                     if url = [] then Inr csvContent
                     else (case fetchCSVFromGitHub url of
                             Inl e \<Rightarrow> Inl (StartFailed (errorMessage e))
                           | Inr csvResult \<Rightarrow>
                               (case content csvResult of
                                  None \<Rightarrow> Inl (FetchFailed (fetch_error csvResult))
                                | Some c \<Rightarrow>
                                    if \<not> success csvResult \<or> c = []
                                    then Inl (FetchFailed (fetch_error csvResult))
                                    else Inr c)))
          in case fetched of
               Inl response \<Rightarrow> (response, st, None)
             | Inr csv \<Rightarrow>
                 if csv = [] then (NoCSVContent, st, None)
                 else
                   let request = \<lparr>csv_mapping = csv,
                                   batch_number = v_batch_number validatedData,
                                   user_id = v_user_id validatedData,
                                   github_url = v_github_url validatedData,
                                   session_id = v_session_id validatedData,
                                   batch_size = v_batch_size validatedData\<rparr>;
                       (jobId, st') = generateTestCases st env request
                   in (Started jobId, st', Some (jobId, request)))"

text \<open>\<open>GET /api/status/:jobId\<close>; \<open>ok\<close> is the environment of its one read.\<close>

datatype StatusResponse = StatusOk StatusData | StatusNotFound jobId

definition statusRoute :: "Store \<Rightarrow> bool \<Rightarrow> jobId \<Rightarrow> StatusResponse" where
  "statusRoute st ok jobId =
     (case readJobStatus st ok jobId of
        None \<Rightarrow> StatusNotFound jobId
      | Some s \<Rightarrow> StatusOk s)"

text \<open>\<open>GET /api/results/:jobId\<close>, with the environments of its two reads.\<close>

record JobResult =
  test_cases :: "TestCase list"
  statistical_summary :: StatisticalSummary
  result_github_url :: "string option"
  csv_download_url :: string
  result_generated_at :: string

datatype ResultsResponse =
    ResultsOk JobResult
  | JobNotFound jobId
  | JobNotCompleted JobStatus jobId
  | ResultsUnreadable jobId

definition resultsRoute :: "Store \<Rightarrow> bool \<Rightarrow> bool \<Rightarrow> jobId \<Rightarrow> ResultsResponse" where
  "resultsRoute st status_ok results_ok jobId =
     (case readJobStatus st status_ok jobId of
        None \<Rightarrow> JobNotFound jobId
      | Some s \<Rightarrow>
          if status s \<noteq> completed then JobNotCompleted (status s) jobId
          else (case readResults st results_ok jobId of
                  None \<Rightarrow> ResultsUnreadable jobId
                | Some results \<Rightarrow>
                    ResultsOk \<lparr>test_cases = TestCases results,
                      statistical_summary = Summary results,
                      result_github_url =
                        (case response_github_url results of
                           None \<Rightarrow> None
                         | Some u \<Rightarrow> if u = [] then None else Some u),
                      csv_download_url = ''/api/download/'' @ jobId,
                      result_generated_at = generated_at results\<rparr>))"

section \<open>Auxiliary definitions\<close>

text \<open>
  The blocks of test cases the loop pushes, row by row, for rows numbered from \<open>i\<close> and
  test cases numbered from \<open>c\<close>.
\<close>

fun blocks :: "string \<Rightarrow> nat \<Rightarrow> nat \<Rightarrow> CSVRow list \<Rightarrow> TestCase list list" where
  "blocks b i c [] = []"
| "blocks b i c (r # rs) = rowCases b i c r # blocks b (Suc i) (c + length (rowCases b i c r)) rs"

text \<open>Reading a decimal numeral back.\<close>

definition isDigit :: "char \<Rightarrow> bool" where
  "isDigit c = (48 \<le> (of_char c :: nat) \<and> (of_char c :: nat) \<le> 57)"

definition digitsVal :: "string \<Rightarrow> nat" where
  "digitsVal s = foldl (\<lambda>a c. 10 * a + (of_char c - 48)) 0 s"

text \<open>
  The id format in the words of the specification:
  \<open>B_{batch_number}_TC_{sequence:03d}_{type_lower}_{subtype_lower}\<close>.
\<close>

definition specId :: "string \<Rightarrow> nat \<Rightarrow> string \<Rightarrow> string \<Rightarrow> string" where
  "specId batch seq type subtype =
     ''B_'' @ batch @ ''_TC_'' @ padStart 3 (CHR ''0'') (String_of seq)
       @ ''_'' @ toLowerCase type @ ''_'' @ toLowerCase subtype"

text \<open>The ending of an id, as the generator writes it.\<close>

definition idSuffix :: "TestCase \<Rightarrow> string" where
  "idSuffix tc =
     (if TestCaseType tc = ''EDGE'' then ''_edge_case''
      else ''_'' @ toLowerCase (TestCaseType tc) @ ''_'' @ toLowerCase (Subtype tc))"

text \<open>
  The Required flag of a row is yes/true, in the words of the specification: the row has
  a \<open>Required\<close> value that reads \<open>yes\<close> or \<open>true\<close>, each letter in lower case or as its
  capital.
\<close>

definition capitalOf :: "char \<Rightarrow> char" where
  "capitalOf c =
     (case map_of [(CHR ''y'', CHR ''Y''), (CHR ''e'', CHR ''E''), (CHR ''s'', CHR ''S''),
                   (CHR ''t'', CHR ''T''), (CHR ''r'', CHR ''R''), (CHR ''u'', CHR ''U'')] c of
        Some C \<Rightarrow> C
      | None \<Rightarrow> c)"

definition reads :: "string \<Rightarrow> string \<Rightarrow> bool" where
  "reads v word = list_all2 (\<lambda>a b. a = b \<or> a = capitalOf b) v word"

definition flaggedRequired :: "CSVRow \<Rightarrow> bool" where
  "flaggedRequired row =
     (case map_of row ''Required'' of
        None \<Rightarrow> False
      | Some v \<Rightarrow> reads v ''yes'' \<or> reads v ''true'')"

text \<open>A write succeeds when neither creating the directory nor writing the object raises.\<close>

definition writes :: "IO \<Rightarrow> bool" where
  "writes io = (mkdir_ok io \<and> write_ok io)"

text \<open>
  Sample values: an empty store on the local backend, an environment without failures,
  a submission.
\<close>

definition emptyStore :: Store where
  "emptyStore = \<lparr>useRealGCS = False, status_json = Map.empty, input_csv = Map.empty, metadata_json = Map.empty,
     results_json = Map.empty, output_csv = Map.empty\<rparr>"

definition okIO :: "string \<Rightarrow> IO" where
  "okIO t = \<lparr>mkdir_ok = True, read_ok = True, write_ok = True, clock0 = t, clock = t\<rparr>"

definition sampleBody :: Body where
  "sampleBody = \<lparr>body_csv_mapping = Some (JString ''Source_Field,Required''),
     body_batch_number = Some (JString ''001''), body_user_id = Some (JString ''u1''),
     body_github_url = None, body_session_id = None, body_batch_size = None\<rparr>"

definition sampleEnv :: SubmitEnv where
  "sampleEnv = \<lparr>uuid = ''job-1'', io_pending = okIO ''t0'', io_input = okIO ''t0'',
     io_metadata = okIO ''t0''\<rparr>"

text \<open>A fetch that raises for every URL.\<close>

definition unreachable :: "string \<Rightarrow> exn + FetchResult" where
  "unreachable url = Inl (Error ''ENOTFOUND'')"

text \<open>The store after the first status write of job \<open>job-1\<close>.\<close>

definition pendingStore :: Store where
  "pendingStore = snd (writeJobStatus emptyStore (okIO ''t0'') ''job-1'' pending None)"

text \<open>The exception the \<open>try\<close> block raises: that of the first forced step, in step order.\<close>

definition firstForced :: "RunEnv \<Rightarrow> exn option" where
  "firstForced env =
     (case forced env ParseCSV of Some e \<Rightarrow> Some e | None \<Rightarrow>
      case forced env GenerateCases of Some e \<Rightarrow> Some e | None \<Rightarrow>
      case forced env Statistics of Some e \<Rightarrow> Some e | None \<Rightarrow>
      forced env DeriveCSV)"

text \<open>Sample values for a run: a request, and an environment in which nothing fails.\<close>

definition sampleRequest :: TestCaseRequest where
  "sampleRequest = \<lparr>csv_mapping = ''Source_Field,Required'', batch_number = ''001'',
     user_id = ''u1'', github_url = None, session_id = None, batch_size = None\<rparr>"

definition nothingForced :: "step \<Rightarrow> exn option" where
  "nothingForced s = None"

definition sampleRun :: RunEnv where
  "sampleRun = \<lparr>io_processing = okIO ''t1'', io_results = okIO ''t2'', io_output = okIO ''t3'',
     io_completed = okIO ''t4'', io_failed = okIO ''t5'', generated_clock = ''t2'',
     forced = nothingForced\<rparr>"

text \<open>A request with one data row.\<close>

definition rowRequest :: TestCaseRequest where
  "rowRequest = sampleRequest\<lparr>csv_mapping := ''Source_Field,Required'' @ NL # ''name,Yes''\<rparr>"

text \<open>A sequence of status writes for one job, each with its environment.\<close>

fun statusWrites :: "Store \<Rightarrow> jobId \<Rightarrow> (IO \<times> JobStatus \<times> string option) list \<Rightarrow> Store" where
  "statusWrites st j [] = st"
| "statusWrites st j ((io, s, err) # ws) = statusWrites (snd (writeJobStatus st io j s err)) j ws"

text \<open>
  The encoding of the derived CSV in the words of the specification: a field holding a
  comma, a double quote or a newline is wrapped in double quotes with the double quotes
  inside doubled, any other field is written as it is; a line is the six fields of a test
  case, separated by commas.
\<close>

definition specField :: "string \<Rightarrow> string" where
  "specField v =
     (if CHR '','' \<in> set v \<or> DQ \<in> set v \<or> NL \<in> set v
      then [DQ] @ concat (map (\<lambda>c. if c = DQ then [DQ, DQ] else [c]) v) @ [DQ]
      else v)"

definition specLine :: "TestCase \<Rightarrow> string" where
  "specLine tc =
     specField (TestCaseID tc) @ '','' @ specField (TestDescription tc) @ '',''
       @ specField (TestSteps tc) @ '','' @ specField (ExpectedResults tc) @ '',''
       @ specField (TestCaseType tc) @ '','' @ specField (Subtype tc)"

text \<open>A test case whose fields need quoting.\<close>

definition quotedCase :: TestCase where
  "quotedCase = \<lparr>TestCaseID = ''B_1_TC_001_functional_positive'',
     TestDescription = ''a, b'', TestSteps = ''1. x'' @ NL # ''2. y'',
     ExpectedResults = ''say '' @ DQ # ''ok'' @ [DQ], TestCaseType = ''FUNCTIONAL'',
     Subtype = ''POSITIVE''\<rparr>"

section \<open>The generator: what one row contributes\<close>

lemma types_rowCases:
  "map TestCaseType (rowCases b i c r)
     = [''FUNCTIONAL'', ''FUNCTIONAL'', ''EDGE''] @ (if (i + 1) mod 3 = 0 then [''REGRESSION''] else [])"
  unfolding rowCases_def Let_def
  by (simp only: map_append list.map TestCase.select_convs if_distrib [of "map TestCaseType"]
      if_distrib [of TestCaseType] if_cancel)

lemma subtypes_rowCases:
  "map Subtype (rowCases b i c r)
     = [''POSITIVE'', ''NEGATIVE'', if isRequired r then ''NEGATIVE'' else ''POSITIVE'']
       @ (if (i + 1) mod 3 = 0 then [''POSITIVE''] else [])"
  unfolding rowCases_def Let_def
  by (simp only: map_append list.map TestCase.select_convs if_distrib [of "map Subtype"]
      if_distrib [of Subtype] if_cancel)

lemma ids_rowCases:
  "map TestCaseID (rowCases b i c r)
     = [tcId b c ''_functional_positive'', tcId b (c + 1) ''_functional_negative'',
        tcId b (c + 2) ''_edge_case'']
       @ (if (i + 1) mod 3 = 0 then [tcId b (c + 3) ''_regression_positive''] else [])"
  unfolding rowCases_def Let_def
  by (simp only: map_append list.map TestCase.select_convs if_distrib [of "map TestCaseID"]
      if_distrib [of TestCaseID] if_cancel)

lemma length_rowCases: "length (rowCases b i c r) = 3 + (if (i + 1) mod 3 = 0 then 1 else 0)"
  using arg_cong [OF types_rowCases [of b i c r], of length] by (simp split: if_splits)

lemma fold_forEachStep:
  "fold (forEachStep b) (zip rows [i..<i + length rows]) (acc, c)
     = (acc @ concat (blocks b i c rows), c + length (concat (blocks b i c rows)))"
proof (induction rows arbitrary: i acc c)
  case Nil
  then show ?case by simp
next
  case (Cons r rs)
  have upt: "[i..<i + length (r # rs)] = i # [Suc i..<Suc i + length rs]"
    by (simp add: upt_rec)
  show ?case
    unfolding upt
    using Cons.IH [of "Suc i" "acc @ rowCases b i c r" "c + length (rowCases b i c r)"]
    by (simp add: forEachStep_def Let_def add.assoc)
qed

lemma generate_blocks: "generateTestCasesFromCSV rows b = concat (blocks b 0 1 rows)"
  using fold_forEachStep [of b rows 0 "[]" 1]
  by (simp add: generateTestCasesFromCSV_def)

lemma length_blocks: "length (blocks b i c rows) = length rows"
  by (induction rows arbitrary: i c) simp_all

lemma length_concat_blocks:
  "length (concat (blocks b i c rows)) + i div 3 = 3 * length rows + (i + length rows) div 3"
proof (induction rows arbitrary: i c)
  case Nil
  then show ?case by simp
next
  case (Cons r rs)
  have step: "Suc i div 3 = i div 3 + (if (i + 1) mod 3 = 0 then 1 else 0)"
    by (simp add: div_Suc)
  have "length (concat (blocks b (Suc i) (c + length (rowCases b i c r)) rs)) + Suc i div 3
      = 3 * length rs + (Suc i + length rs) div 3"
    by (rule Cons.IH)
  with step show ?case
    by (simp add: length_rowCases split: if_splits)
qed

lemma blocks_nth:
  "k < length rows \<Longrightarrow> \<exists>c'. blocks b i c rows ! k = rowCases b (i + k) c' (rows ! k)"
proof (induction rows arbitrary: i c k)
  case Nil
  then show ?case by simp
next
  case (Cons r rs)
  show ?case
  proof (cases k)
    case 0
    then show ?thesis by auto
  next
    case (Suc j)
    with Cons.prems have "j < length rs" by simp
    from Cons.IH [OF this, of "Suc i" "c + length (rowCases b i c r)"] Suc
    show ?thesis by simp
  qed
qed

section \<open>Sequence numbers can be read back from an id\<close>

lemma of_char_digit: "d < 10 \<Longrightarrow> (of_char (digit d) :: nat) = 48 + d"
  by (simp add: digit_def)

lemma isDigit_digit: "d < 10 \<Longrightarrow> isDigit (digit d)"
  by (simp add: isDigit_def of_char_digit)

lemma digits_String_of: "c \<in> set (String_of n) \<Longrightarrow> isDigit c"
proof (induction n arbitrary: c rule: String_of.induct)
  case (1 n)
  show ?case
  proof (cases "n < 10")
    case True
    with "1.prems" show ?thesis
      by (simp add: String_of.simps [of n] isDigit_digit)
  next
    case False
    with "1.prems" have "c \<in> set (String_of (n div 10)) \<or> c = digit (n mod 10)"
      by (auto simp: String_of.simps [of n])
    with False "1.IH" show ?thesis
      by (auto simp: isDigit_digit)
  qed
qed

lemma digitsVal_snoc: "digitsVal (s @ [c]) = 10 * digitsVal s + (of_char c - 48)"
  by (simp add: digitsVal_def)

lemma digitsVal_String_of: "digitsVal (String_of n) = n"
proof (induction n rule: String_of.induct)
  case (1 n)
  show ?case
  proof (cases "n < 10")
    case True
    then show ?thesis
      by (simp add: String_of.simps [of n] digitsVal_def of_char_digit)
  next
    case False
    with "1.IH" have "digitsVal (String_of (n div 10)) = n div 10" by simp
    with False show ?thesis
      by (simp add: String_of.simps [of n] digitsVal_snoc of_char_digit)
  qed
qed

lemma digitsVal_zeros: "digitsVal (replicate k (CHR ''0'') @ s) = digitsVal s"
  by (induction k) (simp_all add: digitsVal_def)

lemma digitsVal_pad: "digitsVal (padStart 3 (CHR ''0'') (String_of n)) = n"
  by (simp add: padStart_def digitsVal_zeros digitsVal_String_of)

lemma digits_pad: "c \<in> set (padStart 3 (CHR ''0'') (String_of n)) \<Longrightarrow> isDigit c"
  by (auto simp: padStart_def isDigit_def dest: digits_String_of)

lemma takeWhile_pad:
  "takeWhile isDigit (padStart 3 (CHR ''0'') (String_of n) @ CHR ''_'' # t)
     = padStart 3 (CHR ''0'') (String_of n)"
proof -
  have "\<not> isDigit (CHR ''_'')" by (simp add: isDigit_def)
  then show ?thesis
    using digits_pad [of _ n] by (simp add: takeWhile_append2)
qed

lemma tcId_inject:
  assumes "tcId b n (CHR ''_'' # s) = tcId b m (CHR ''_'' # t)"
  shows "n = m"
proof -
  from assms have "padStart 3 (CHR ''0'') (String_of n) @ CHR ''_'' # s
      = padStart 3 (CHR ''0'') (String_of m) @ CHR ''_'' # t"
    by (simp add: tcId_def)
  then have "takeWhile isDigit (padStart 3 (CHR ''0'') (String_of n) @ CHR ''_'' # s)
      = takeWhile isDigit (padStart 3 (CHR ''0'') (String_of m) @ CHR ''_'' # t)"
    by simp
  then have "padStart 3 (CHR ''0'') (String_of n) = padStart 3 (CHR ''0'') (String_of m)"
    by (simp only: takeWhile_pad)
  then have "digitsVal (padStart 3 (CHR ''0'') (String_of n))
      = digitsVal (padStart 3 (CHR ''0'') (String_of m))"
    by simp
  then show ?thesis
    by (simp only: digitsVal_pad)
qed

section \<open>Identifiers\<close>

lemma lower_literals:
  "toLowerCase ''FUNCTIONAL'' = ''functional''"
  "toLowerCase ''REGRESSION'' = ''regression''"
  "toLowerCase ''EDGE'' = ''edge''"
  "toLowerCase ''POSITIVE'' = ''positive''"
  "toLowerCase ''NEGATIVE'' = ''negative''"
  by code_simp+

lemma nth_proj: "k < length xs \<Longrightarrow> f (xs ! k) = map f xs ! k"
  by simp

lemma rowCases_id:
  assumes "k < length (rowCases b i c r)"
  shows "TestCaseID (rowCases b i c r ! k) = tcId b (c + k) (idSuffix (rowCases b i c r ! k))"
proof -
  let ?xs = "rowCases b i c r"
  have k: "k = 0 \<or> k = 1 \<or> k = 2 \<or> (k = 3 \<and> (i + 1) mod 3 = 0)"
    using assms by (auto simp: length_rowCases split: if_splits)
  have "map TestCaseID ?xs ! k
      = tcId b (c + k) (if map TestCaseType ?xs ! k = ''EDGE'' then ''_edge_case''
          else ''_'' @ toLowerCase (map TestCaseType ?xs ! k) @ ''_''
            @ toLowerCase (map Subtype ?xs ! k))"
    unfolding ids_rowCases types_rowCases subtypes_rowCases
    using k by (auto simp: lower_literals)
  then show ?thesis
    using assms by (simp add: idSuffix_def)
qed

lemma concat_blocks_id:
  "k < length (concat (blocks b i c rows)) \<Longrightarrow>
     TestCaseID (concat (blocks b i c rows) ! k)
       = tcId b (c + k) (idSuffix (concat (blocks b i c rows) ! k))"
proof (induction rows arbitrary: i c k)
  case Nil
  then show ?case by simp
next
  case (Cons r rs)
  let ?blk = "rowCases b i c r"
  show ?case
  proof (cases "k < length ?blk")
    case True
    then show ?thesis
      by (simp add: nth_append rowCases_id)
  next
    case False
    with Cons.prems have "k - length ?blk < length (concat (blocks b (Suc i) (c + length ?blk) rs))"
      by simp
    from Cons.IH [OF this] False show ?thesis
      by (simp add: nth_append)
  qed
qed

lemma idSuffix_shape: "\<exists>t. idSuffix tc = CHR ''_'' # t"
  by (simp add: idSuffix_def)

lemma concat_blocks_distinct: "distinct (map TestCaseID (concat (blocks b i c rows)))"
proof -
  let ?out = "concat (blocks b i c rows)"
  have "map TestCaseID ?out ! j \<noteq> map TestCaseID ?out ! k"
    if "j < length ?out" "k < length ?out" "j \<noteq> k" for j k
  proof
    assume "map TestCaseID ?out ! j = map TestCaseID ?out ! k"
    with that have eq: "tcId b (c + j) (idSuffix (?out ! j)) = tcId b (c + k) (idSuffix (?out ! k))"
      by (simp add: concat_blocks_id)
    obtain s t where "idSuffix (?out ! j) = CHR ''_'' # s" "idSuffix (?out ! k) = CHR ''_'' # t"
      using idSuffix_shape by blast
    with eq have "c + j = c + k"
      using tcId_inject by metis
    with that show False by simp
  qed
  then show ?thesis
    by (simp add: distinct_conv_nth)
qed

text \<open>
  C6, as amended. The test case at position \<open>k\<close> (from 0) of a job's output carries
  sequence number \<open>k + 1\<close>, zero-padded to three digits, behind \<open>B_{batch}_TC_\<close>. A
  FUNCTIONAL or REGRESSION case ends in \<open>_{type_lower}_{subtype_lower}\<close>, as the format
  of the specification (\<open>specId\<close>) has it; an EDGE case ends in \<open>_edge_case\<close> whatever its
  subtype. All ids of one job are distinct.
\<close>

theorem testcase_ids:
  "(\<forall>k < length (generateTestCasesFromCSV rows b).
      let tc = generateTestCasesFromCSV rows b ! k in
      TestCaseID tc =
        (if TestCaseType tc = ''EDGE'' then tcId b (k + 1) ''_edge_case''
         else specId b (k + 1) (TestCaseType tc) (Subtype tc)))
   \<and> distinct (map TestCaseID (generateTestCasesFromCSV rows b))"
proof -
  have "TestCaseID (generateTestCasesFromCSV rows b ! k)
      = tcId b (k + 1) (idSuffix (generateTestCasesFromCSV rows b ! k))"
    if "k < length (generateTestCasesFromCSV rows b)" for k
    using that concat_blocks_id [of k b 0 1 rows] by (simp add: generate_blocks)
  then show ?thesis
    by (simp add: Let_def idSuffix_def specId_def tcId_def generate_blocks concat_blocks_distinct)
qed

text \<open>The theorem at a job of one required row: its second and third test case.\<close>

theorem testcase_ids_witness:
  "TestCaseID (generateTestCasesFromCSV [[(''Required'', ''Yes'')]] ''001'' ! 2) = ''B_001_TC_003_edge_case''
   \<and> TestCaseID (generateTestCasesFromCSV [[(''Required'', ''Yes'')]] ''001'' ! 1)
       = specId ''001'' 2 ''FUNCTIONAL'' ''NEGATIVE''"
proof -
  let ?out = "generateTestCasesFromCSV [[(''Required'', ''Yes'')]] ''001''"
  have len: "length ?out = 3"
    by code_simp
  have t2: "TestCaseType (?out ! 2) = ''EDGE''"
    by code_simp
  have t1: "TestCaseType (?out ! 1) = ''FUNCTIONAL''"
    by code_simp
  have s1: "Subtype (?out ! 1) = ''NEGATIVE''"
    by code_simp
  have pad: "tcId ''001'' 3 ''_edge_case'' = ''B_001_TC_003_edge_case''"
    by code_simp
  from testcase_ids [of "[[(''Required'', ''Yes'')]]" "''001''", unfolded len]
  have all: "\<forall>k < 3. let tc = ?out ! k in
      TestCaseID tc =
        (if TestCaseType tc = ''EDGE'' then tcId ''001'' (k + 1) ''_edge_case''
         else specId ''001'' (k + 1) (TestCaseType tc) (Subtype tc))"
    by (rule conjunct1)
  have three: "(2::nat) + 1 = 3" and two: "(1::nat) + 1 = 2"
    by simp_all
  have e2: "TestCaseID (?out ! 2) = tcId ''001'' (2 + 1) ''_edge_case''"
    using all [rule_format, of 2] by (simp only: Let_def t2 if_True) simp
  have e1: "TestCaseID (?out ! 1) = specId ''001'' (1 + 1) ''FUNCTIONAL'' ''NEGATIVE''"
    using all [rule_format, of 1] by (simp only: Let_def t1 s1) simp
  from e2 [unfolded three pad] e1 [unfolded two] show ?thesis
    by (rule conjI)
qed

text \<open>
  C6 as stated fails: the third test case of that job is EDGE/NEGATIVE, and its id ends in
  \<open>_edge_case\<close>, not in \<open>_edge_negative\<close>.
\<close>

theorem testcase_id_spec_format_counterexample:
  "TestCaseID (generateTestCasesFromCSV [[(''Required'', ''Yes'')]] ''001'' ! 2)
     \<noteq> specId ''001'' 3
          (TestCaseType (generateTestCasesFromCSV [[(''Required'', ''Yes'')]] ''001'' ! 2))
          (Subtype (generateTestCasesFromCSV [[(''Required'', ''Yes'')]] ''001'' ! 2))"
  by code_simp

section \<open>Coverage of a row\<close>

lemma rowCases_shape:
  "\<exists>fp fn e rest. rowCases b i c r = fp # fn # e # rest
     \<and> TestCaseType fp = ''FUNCTIONAL'' \<and> Subtype fp = ''POSITIVE''
     \<and> TestCaseType fn = ''FUNCTIONAL'' \<and> Subtype fn = ''NEGATIVE''
     \<and> TestCaseType e = ''EDGE'' \<and> Subtype e = (if isRequired r then ''NEGATIVE'' else ''POSITIVE'')
     \<and> (\<forall>x \<in> set rest. TestCaseType x = ''REGRESSION'' \<and> Subtype x = ''POSITIVE'')
     \<and> length rest = (if (i + 1) mod 3 = 0 then 1 else 0)"
proof -
  have "3 \<le> length (rowCases b i c r)"
    by (simp add: length_rowCases)
  then obtain fp fn e rest where xs: "rowCases b i c r = fp # fn # e # rest"
    by (auto simp: numeral_3_eq_3 Suc_le_length_iff)
  from types_rowCases [of b i c r] subtypes_rowCases [of b i c r] length_rowCases [of b i c r]
  show ?thesis
    unfolding xs by (cases rest) (auto split: if_splits)
qed

text \<open>
  The output is the concatenation of one block of test cases per row, in row order; the
  subtype of the EDGE case of a block follows \<open>isRequired\<close>, the test of the code.
\<close>

lemma row_blocks:
  "\<exists>blks. generateTestCasesFromCSV rows b = concat blks \<and> length blks = length rows \<and>
     (\<forall>i < length rows.
        (\<exists>tc \<in> set (blks ! i). TestCaseType tc = ''FUNCTIONAL'' \<and> Subtype tc = ''POSITIVE'') \<and>
        (\<exists>tc \<in> set (blks ! i). TestCaseType tc = ''FUNCTIONAL'' \<and> Subtype tc = ''NEGATIVE'') \<and>
        (\<exists>tc. filter (\<lambda>tc. TestCaseType tc = ''EDGE'') (blks ! i) = [tc] \<and>
           Subtype tc = (if isRequired (rows ! i) then ''NEGATIVE'' else ''POSITIVE'')))"
proof -
  let ?blks = "blocks b 0 1 rows"
  have rows: "(\<exists>tc \<in> set (?blks ! i). TestCaseType tc = ''FUNCTIONAL'' \<and> Subtype tc = ''POSITIVE'') \<and>
        (\<exists>tc \<in> set (?blks ! i). TestCaseType tc = ''FUNCTIONAL'' \<and> Subtype tc = ''NEGATIVE'') \<and>
        (\<exists>tc. filter (\<lambda>tc. TestCaseType tc = ''EDGE'') (?blks ! i) = [tc] \<and>
           Subtype tc = (if isRequired (rows ! i) then ''NEGATIVE'' else ''POSITIVE''))"
    if "i < length rows" for i
  proof -
    from that obtain c' where blk: "?blks ! i = rowCases b (0 + i) c' (rows ! i)"
      using blocks_nth by blast
    obtain fp fn e rest where shape:
      "rowCases b (0 + i) c' (rows ! i) = fp # fn # e # rest"
      "TestCaseType fp = ''FUNCTIONAL''" "Subtype fp = ''POSITIVE''"
      "TestCaseType fn = ''FUNCTIONAL''" "Subtype fn = ''NEGATIVE''"
      "TestCaseType e = ''EDGE''"
      "Subtype e = (if isRequired (rows ! i) then ''NEGATIVE'' else ''POSITIVE'')"
      "\<forall>x \<in> set rest. TestCaseType x = ''REGRESSION'' \<and> Subtype x = ''POSITIVE''"
      using rowCases_shape [of b "0 + i" c' "rows ! i"] by blast
    have pos: "\<exists>tc \<in> set (?blks ! i). TestCaseType tc = ''FUNCTIONAL'' \<and> Subtype tc = ''POSITIVE''"
      unfolding blk shape(1) using shape(2,3) by simp
    have neg: "\<exists>tc \<in> set (?blks ! i). TestCaseType tc = ''FUNCTIONAL'' \<and> Subtype tc = ''NEGATIVE''"
      unfolding blk shape(1) using shape(4,5) by simp
    have "filter (\<lambda>tc. TestCaseType tc = ''EDGE'') rest = []"
      using shape(8) by (simp add: filter_empty_conv)
    then have "filter (\<lambda>tc. TestCaseType tc = ''EDGE'') (?blks ! i) = [e]"
      unfolding blk shape(1) using shape(2,4,6) by simp
    with shape(7) pos neg show ?thesis
      by blast
  qed
  have "generateTestCasesFromCSV rows b = concat ?blks"
    by (rule generate_blocks)
  moreover have "length ?blks = length rows"
    by (rule length_blocks)
  ultimately show ?thesis
    using rows by blast
qed


text \<open>
  The test of the code agrees with the flag of the specification: lowering a value gives
  \<open>yes\<close> or \<open>true\<close> exactly when the value reads so.
\<close>

lemma of_char_lowerChar:
  "(of_char (lowerChar a) :: nat)
     = (if 65 \<le> (of_char a :: nat) \<and> (of_char a :: nat) \<le> 90 then of_char a + 32 else of_char a)"
  by (simp add: lowerChar_def Let_def)

lemma lowerChar_letter:
  assumes "b \<in> set ''yestru''"
  shows "lowerChar a = b \<longleftrightarrow> a = b \<or> a = capitalOf b"
proof -
  define n where "n = (of_char a :: nat)"
  have A: "a = c \<longleftrightarrow> n = of_char c" for c
    unfolding n_def by simp
  have L: "lowerChar a = c \<longleftrightarrow> (if 65 \<le> n \<and> n \<le> 90 then n + 32 else n) = of_char c" for c
    unfolding n_def using of_char_lowerChar [of a] of_char_eq_iff [of "lowerChar a" c, where ?'a = nat]
    by simp
  have "(if 65 \<le> n \<and> n \<le> 90 then n + 32 else n) = of_char b
      \<longleftrightarrow> n = of_char b \<or> n = of_char (capitalOf b)"
    using assms by (auto simp: capitalOf_def)
  then show ?thesis
    by (simp only: A L)
qed

lemma toLowerCase_reads:
  assumes "set word \<subseteq> set ''yestru''"
  shows "toLowerCase v = word \<longleftrightarrow> reads v word"
proof -
  have "toLowerCase v = word \<longleftrightarrow> list_all2 (\<lambda>a b. lowerChar a = b) v word"
    unfolding toLowerCase_def by (simp add: list_all2_conv_all_nth list_eq_iff_nth_eq)
  also have "\<dots> \<longleftrightarrow> list_all2 (\<lambda>a b. a = b \<or> a = capitalOf b) v word"
    using assms
    by (auto simp: list_all2_conv_all_nth lowerChar_letter subset_iff)
  finally show ?thesis
    by (simp add: reads_def)
qed

lemma isRequired_flagged: "isRequired row = flaggedRequired row"
  by (simp add: isRequired_def flaggedRequired_def toLowerCase_reads split: option.splits)

text \<open>
  C7. The output is the concatenation of one block of test cases per row, in row order.
  The block of a row holds a FUNCTIONAL/POSITIVE case, a FUNCTIONAL/NEGATIVE case and
  exactly one EDGE case, whose subtype is NEGATIVE when the row's \<open>Required\<close> value reads
  \<open>yes\<close> or \<open>true\<close> (in any mix of upper and lower case) and POSITIVE otherwise, also when
  the row has no \<open>Required\<close> value.
\<close>

theorem row_coverage:
  "\<exists>blks. generateTestCasesFromCSV rows b = concat blks \<and> length blks = length rows \<and>
     (\<forall>i < length rows.
        (\<exists>tc \<in> set (blks ! i). TestCaseType tc = ''FUNCTIONAL'' \<and> Subtype tc = ''POSITIVE'') \<and>
        (\<exists>tc \<in> set (blks ! i). TestCaseType tc = ''FUNCTIONAL'' \<and> Subtype tc = ''NEGATIVE'') \<and>
        (\<exists>tc. filter (\<lambda>tc. TestCaseType tc = ''EDGE'') (blks ! i) = [tc] \<and>
           Subtype tc = (if flaggedRequired (rows ! i) then ''NEGATIVE'' else ''POSITIVE'')))"
  using row_blocks [of rows b] by (simp only: isRequired_flagged)

text \<open>
  The theorem at three rows: one marked \<open>TRUE\<close>, one marked \<open>No\<close>, one without a
  \<open>Required\<close> value.
\<close>

theorem row_coverage_witness:
  "map Subtype (filter (\<lambda>tc. TestCaseType tc = ''EDGE'')
      (generateTestCasesFromCSV
         [[(''Required'', ''TRUE'')], [(''Source_Field'', ''name''), (''Required'', ''No'')], []] ''7''))
     = [''NEGATIVE'', ''POSITIVE'', ''POSITIVE'']"
proof -
  let ?rows = "[[(''Required'', ''TRUE'')], [(''Source_Field'', ''name''), (''Required'', ''No'')], []]"
  have flags: "flaggedRequired (?rows ! 0)" "\<not> flaggedRequired (?rows ! 1)"
    "\<not> flaggedRequired (?rows ! 2)"
    by code_simp+
  obtain blks where gen: "generateTestCasesFromCSV ?rows ''7'' = concat blks"
    and len: "length blks = length ?rows"
    and cov: "\<forall>i < length ?rows.
        (\<exists>tc \<in> set (blks ! i). TestCaseType tc = ''FUNCTIONAL'' \<and> Subtype tc = ''POSITIVE'') \<and>
        (\<exists>tc \<in> set (blks ! i). TestCaseType tc = ''FUNCTIONAL'' \<and> Subtype tc = ''NEGATIVE'') \<and>
        (\<exists>tc. filter (\<lambda>tc. TestCaseType tc = ''EDGE'') (blks ! i) = [tc] \<and>
           Subtype tc = (if flaggedRequired (?rows ! i) then ''NEGATIVE'' else ''POSITIVE''))"
    using row_coverage [of ?rows "''7''"] by blast
  from len obtain b0 b1 b2 where blks: "blks = [b0, b1, b2]"
    by (auto simp: length_Suc_conv)
  from cov [rule_format, of 0] flags(1) blks obtain e0 where
    e0: "filter (\<lambda>tc. TestCaseType tc = ''EDGE'') b0 = [e0]" "Subtype e0 = ''NEGATIVE''"
    by auto
  from cov [rule_format, of 1] flags(2) blks obtain e1 where
    e1: "filter (\<lambda>tc. TestCaseType tc = ''EDGE'') b1 = [e1]" "Subtype e1 = ''POSITIVE''"
    by auto
  from cov [rule_format, of 2] flags(3) blks obtain e2 where
    e2: "filter (\<lambda>tc. TestCaseType tc = ''EDGE'') b2 = [e2]" "Subtype e2 = ''POSITIVE''"
    by auto
  from e0 e1 e2 show ?thesis
    by (simp add: gen blks)
qed

section \<open>Status writes\<close>

lemma writes_keep_backend:
  "useRealGCS (snd (writeJobStatus st io j s err)) = useRealGCS st"
  "useRealGCS (snd (writeCSVContent st io j c)) = useRealGCS st"
  "useRealGCS (snd (writeMetadata st io j m)) = useRealGCS st"
  "useRealGCS (snd (writeResults st io j r)) = useRealGCS st"
  "useRealGCS (snd (writeCSVOutput st io j c)) = useRealGCS st"
  by (simp_all add: writeJobStatus_def writeCSVContent_def writeMetadata_def writeResults_def
      writeCSVOutput_def Let_def)

lemma writes_keep_jobKey:
  "jobKey (snd (writeJobStatus st io j s err)) = jobKey st"
  "jobKey (snd (writeCSVContent st io j c)) = jobKey st"
  "jobKey (snd (writeMetadata st io j m)) = jobKey st"
  "jobKey (snd (writeResults st io j r)) = jobKey st"
  "jobKey (snd (writeCSVOutput st io j c)) = jobKey st"
  by (rule ext, simp add: jobKey_def writes_keep_backend)+

lemma writeJobStatus_frame:
  "input_csv (snd (writeJobStatus st io j s err)) = input_csv st"
  "metadata_json (snd (writeJobStatus st io j s err)) = metadata_json st"
  "results_json (snd (writeJobStatus st io j s err)) = results_json st"
  "output_csv (snd (writeJobStatus st io j s err)) = output_csv st"
  "k \<noteq> jobKey st j \<Longrightarrow> status_json (snd (writeJobStatus st io j s err)) k = status_json st k"
  by (simp_all add: writeJobStatus_def Let_def)

lemma writeJobStatus_fails:
  "\<not> writes io \<Longrightarrow> writeJobStatus st io j s err = (False, st)"
  by (auto simp: writeJobStatus_def writes_def Let_def)

lemma writeJobStatus_writes:
  "writes io \<Longrightarrow> writeJobStatus st io j s err =
     (True, st\<lparr>status_json := (status_json st)(jobKey st j \<mapsto>
        \<lparr>status = s,
         created_at = (case readJobStatus st (read_ok io) j of None \<Rightarrow> clock0 io
            | Some e \<Rightarrow> if created_at e = [] then clock0 io else created_at e),
         updated_at = clock io,
         error = (case err of None \<Rightarrow> None | Some m \<Rightarrow> if m = [] then None else Some m)\<rparr>)\<rparr>)"
  by (simp add: writeJobStatus_def writes_def Let_def)

lemma other_writes_status:
  "status_json (snd (writeCSVContent st io j c)) = status_json st"
  "status_json (snd (writeMetadata st io j m)) = status_json st"
  "status_json (snd (writeResults st io j r)) = status_json st"
  "status_json (snd (writeCSVOutput st io j c)) = status_json st"
  by (simp_all add: writeCSVContent_def writeMetadata_def writeResults_def writeCSVOutput_def)

section \<open>Submission\<close>

lemma generateTestCases_status:
  assumes "writes (io_pending env)"
  shows "\<exists>sd. status_json (snd (generateTestCases st env request)) (jobKey st (uuid env)) = Some sd
     \<and> status sd = pending \<and> error sd = None"
  by (simp add: generateTestCases_def Let_def writeJobStatus_writes [OF assms] split_beta
      other_writes_status)

lemma generateTestCases_jobKey: "jobKey (snd (generateTestCases st env request)) = jobKey st"
  by (simp add: generateTestCases_def Let_def split_beta writes_keep_jobKey)

lemma generateTestCases_id: "fst (generateTestCases st env request) = uuid env"
  by (simp add: generateTestCases_def Let_def split_beta)

lemma submitRoute_cases:
  assumes "submitRoute st fetch env body = (r, st', task)"
  shows "(r, st', task) = (r, st, None) \<and> (\<forall>j. r \<noteq> Started j)
     \<or> (\<exists>request. r = Started (uuid env) \<and> st' = snd (generateTestCases st env request)
           \<and> task = Some (uuid env, request) \<and> csv_mapping request \<noteq> [])"
  using assms generateTestCases_id [of st env]
  by (auto simp: submitRoute_def Let_def split_beta
      split: option.splits sum.splits if_splits)

text \<open>
  When the write of the \<open>pending\<close> status succeeds, the record is in the store before the
  job id is returned, and a status poll whose read succeeds answers \<open>pending\<close>.
\<close>

lemma pending_visible_when_written:
  assumes "submitRoute st fetch env body = (Started j, st', task)"
    and "mkdir_ok (io_pending env)" and "write_ok (io_pending env)"
  shows "\<exists>sd. statusRoute st' True j = StatusOk sd \<and> status sd = pending"
proof -
  from submitRoute_cases [OF assms(1)] obtain request where
    j: "j = uuid env" and st': "st' = snd (generateTestCases st env request)"
    by auto
  from assms(2,3) have "writes (io_pending env)"
    by (simp add: writes_def)
  from generateTestCases_status [OF this, of st request] j st'
  show ?thesis
    by (auto simp: statusRoute_def readJobStatus_def generateTestCases_jobKey)
qed

lemma sample_parse:
  "schema_parse sampleBody = Some \<lparr>v_csv_mapping = Some ''Source_Field,Required'',
     v_batch_number = ''001'', v_user_id = ''u1'', v_github_url = None, v_session_id = None,
     v_batch_size = None\<rparr>"
  by (simp add: schema_parse_def sampleBody_def optionalString_def requiredString_def
      optionalNumber_def)

text \<open>
  C1. The claim does not hold of the code. At a well-formed submission during which
  writing \<open>status.json\<close> raises (a full disk, a lost connection to the bucket),
  \<open>writeJobStatus\<close> logs the exception and returns \<open>false\<close>; \<open>generateTestCases\<close> does not
  look at the result, writes input and metadata, and returns the job id. The route answers
  with that id, and the status poll that follows finds no job.
\<close>

theorem submit_returns_id_without_pending_record:
  "fst (submitRoute emptyStore unreachable
          (sampleEnv\<lparr>io_pending := (okIO ''t0'')\<lparr>write_ok := False\<rparr>\<rparr>) sampleBody)
     = Started ''job-1''
   \<and> statusRoute (fst (snd (submitRoute emptyStore unreachable
          (sampleEnv\<lparr>io_pending := (okIO ''t0'')\<lparr>write_ok := False\<rparr>\<rparr>) sampleBody))) True ''job-1''
     = StatusNotFound ''job-1''"
  by (simp add: submitRoute_def sample_parse Let_def split_beta generateTestCases_def
      sampleEnv_def okIO_def writeJobStatus_def writeCSVContent_def writeMetadata_def
      statusRoute_def readJobStatus_def emptyStore_def)

text \<open>What the poller of that job sees.\<close>

theorem submit_returns_id_without_pending_record_witness:
  "statusRoute (fst (snd (submitRoute emptyStore unreachable
          (sampleEnv\<lparr>io_pending := (okIO ''t0'')\<lparr>write_ok := False\<rparr>\<rparr>) sampleBody))) True ''job-1''
     = StatusNotFound ''job-1''"
  using submit_returns_id_without_pending_record by (rule conjunct2)

section \<open>Fetching results\<close>






section \<open>Rejected submissions\<close>

text \<open>
  C4. A submission is rejected when the body fails the schema, when a URL is given and
  fetching it raises, reports no success or yields no content, or when no URL is given
  and there is no inline CSV text. The route then answers with an error, returns no job
  id, schedules no background task and leaves the store exactly as it was.
\<close>

theorem rejected_submission_writes_nothing:
  assumes "schema_parse body = None
     \<or> (\<exists>v. schema_parse body = Some v \<and>
          (case v_github_url v of
             None \<Rightarrow> v_csv_mapping v = None \<or> v_csv_mapping v = Some []
           | Some url \<Rightarrow>
               if url = [] then v_csv_mapping v = None \<or> v_csv_mapping v = Some []
               else (case fetchCSV url of
                       Inl e \<Rightarrow> True
                     | Inr res \<Rightarrow> \<not> success res \<or> content res = None \<or> content res = Some [])))"
  shows "\<exists>r. submitRoute st fetchCSV env body = (r, st, None) \<and> (\<forall>j. r \<noteq> Started j)"
proof -
  have parse_fails: ?thesis if "schema_parse body = None"
    using that by (simp add: submitRoute_def)
  have unresolved: ?thesis
    if v: "schema_parse body = Some v"
      and c: "case v_github_url v of
             None \<Rightarrow> v_csv_mapping v = None \<or> v_csv_mapping v = Some []
           | Some url \<Rightarrow>
               if url = [] then v_csv_mapping v = None \<or> v_csv_mapping v = Some []
               else (case fetchCSV url of
                       Inl e \<Rightarrow> True
                     | Inr res \<Rightarrow> \<not> success res \<or> content res = None \<or> content res = Some [])"
    for v
  proof (cases "v_github_url v")
    case None
    with c have "v_csv_mapping v = None \<or> v_csv_mapping v = Some []" by simp
    with v None show ?thesis
      by (auto simp: submitRoute_def Let_def)
  next
    case (Some url)
    show ?thesis
    proof (cases "url = []")
      case True
      with c Some have "v_csv_mapping v = None \<or> v_csv_mapping v = Some []" by simp
      with v Some True show ?thesis
        by (auto simp: submitRoute_def Let_def)
    next
      case False
      show ?thesis
      proof (cases "fetchCSV url")
        case (Inl e)
        with v Some False show ?thesis
          by (simp add: submitRoute_def Let_def)
      next
        case (Inr res)
        with c Some False
        have "\<not> success res \<or> content res = None \<or> content res = Some []" by simp
        with v Some False Inr show ?thesis
          by (cases "content res") (auto simp: submitRoute_def Let_def)
      qed
    qed
  qed
  from assms parse_fails unresolved show ?thesis
    by blast
qed

text \<open>The theorem at a submission whose URL cannot be fetched, on a store that holds a job.\<close>

theorem rejected_submission_writes_nothing_witness:
  "\<exists>r. submitRoute pendingStore unreachable sampleEnv
          (sampleBody\<lparr>body_github_url := Some (JString ''https://github.com/none/none.csv'')\<rparr>)
        = (r, pendingStore, None) \<and> (\<forall>j. r \<noteq> Started j)"
proof -
  let ?body = "sampleBody\<lparr>body_github_url := Some (JString ''https://github.com/none/none.csv'')\<rparr>"
  have p: "schema_parse ?body = Some \<lparr>v_csv_mapping = Some ''Source_Field,Required'',
     v_batch_number = ''001'', v_user_id = ''u1'',
     v_github_url = Some ''https://github.com/none/none.csv'', v_session_id = None,
     v_batch_size = None\<rparr>"
    by (simp add: schema_parse_def sampleBody_def optionalString_def requiredString_def
      optionalNumber_def)
  show ?thesis
    by (rule rejected_submission_writes_nothing) (simp add: p unreachable_def)
qed

section \<open>The background task\<close>

lemma processJob_forced:
  "firstForced env = Some e \<Longrightarrow> fst (processJob st env j req) = Inl e"
  by (auto simp: processJob_def firstForced_def Let_def split_beta split: option.splits)

lemma processJob_unforced:
  "firstForced env = None \<Longrightarrow> fst (processJob st env j req) = Inr ()"
  by (auto simp: processJob_def firstForced_def Let_def split_beta split: option.splits)

lemma processJob_jobKey: "jobKey (snd (processJob st env j req)) = jobKey st"
  by (simp add: processJob_def Let_def split_beta writes_keep_jobKey split: option.splits)

lemma backgroundTask_forced:
  assumes "firstForced env = Some e"
  shows "backgroundTask st env j req =
     (Inr (), snd (writeJobStatus (snd (processJob st env j req)) (io_failed env) j failed
        (Some (errorMessage e))))"
proof -
  obtain r st' where p: "processJob st env j req = (r, st')"
    by (cases "processJob st env j req")
  with processJob_forced [OF assms, of st j req] have "r = Inl e" by simp
  with p show ?thesis
    by (simp add: backgroundTask_def split_beta)
qed

text \<open>
  The handler of the task. The task never raises; when a computing step raises and the
  write of the handler succeeds, the status is \<open>failed\<close>, with the message of an \<open>Error\<close>
  (if it is not empty) or the text \<open>Unknown error\<close> for any other thrown value.
\<close>

lemma backgroundTask_returns: "fst (backgroundTask st env j req) = Inr ()"
  by (cases "processJob st env j req")
    (auto simp: backgroundTask_def split_beta split: sum.splits)

lemma handler_persists_failed:
  assumes "firstForced env = Some e" and "writes (io_failed env)"
  shows "\<exists>sd. status_json (snd (backgroundTask st env j req)) (jobKey st j) = Some sd
     \<and> status sd = failed
     \<and> error sd = (case e of Error m \<Rightarrow> if m = [] then None else Some m
                   | NonError \<Rightarrow> Some ''Unknown error'')"
  by (cases e)
    (simp_all add: backgroundTask_forced [OF assms(1)] writeJobStatus_writes [OF assms(2)]
      processJob_jobKey errorMessage_def)

text \<open>
  C2. The claim does not hold of the code. Take a job whose status is \<open>pending\<close> and a run
  in which writing \<open>results.json\<close> raises while every other write succeeds. The exception is
  caught inside \<open>writeResults\<close>, which logs it and returns \<open>false\<close>; the task does not look
  at the result, so its handler never runs. The job ends with status \<open>completed\<close> and no
  error message, there are no results in the store, and the results route answers with a
  read error.
\<close>

theorem results_write_failure_leaves_job_completed:
  "statusRoute (snd (backgroundTask pendingStore
       (sampleRun\<lparr>io_results := (okIO ''t2'')\<lparr>write_ok := False\<rparr>\<rparr>) ''job-1'' sampleRequest))
       True ''job-1''
     = StatusOk \<lparr>status = completed, created_at = ''t0'', updated_at = ''t4'', error = None\<rparr>
   \<and> resultsRoute (snd (backgroundTask pendingStore
       (sampleRun\<lparr>io_results := (okIO ''t2'')\<lparr>write_ok := False\<rparr>\<rparr>) ''job-1'' sampleRequest))
       True True ''job-1''
     = ResultsUnreadable ''job-1''"
  by (simp add: backgroundTask_def processJob_def sampleRun_def nothingForced_def okIO_def
      Let_def split_beta writeResults_def writeCSVOutput_def writeJobStatus_def
      readJobStatus_def readResults_def pendingStore_def emptyStore_def statusRoute_def
      resultsRoute_def jobKey_def)

text \<open>What a client that fetches the results of that job gets.\<close>

theorem results_write_failure_leaves_job_completed_witness:
  "resultsRoute (snd (backgroundTask pendingStore
       (sampleRun\<lparr>io_results := (okIO ''t2'')\<lparr>write_ok := False\<rparr>\<rparr>) ''job-1'' sampleRequest))
       True True ''job-1''
     = ResultsUnreadable ''job-1''"
  using results_write_failure_leaves_job_completed by (rule conjunct2)

section \<open>Statistics of a job\<close>

lemma sum_increment: "sum_list (map snd (increment k t)) = sum_list (map snd t) + 1"
  by (induction k t rule: increment.induct) simp_all

lemma sum_fold_increment:
  "sum_list (map snd (fold (\<lambda>tc t. increment (f tc) t) tcs t)) = sum_list (map snd t) + length tcs"
  by (induction tcs arbitrary: t) (simp_all add: sum_increment)

lemma calculateStatistics_sums:
  "TotalTestCases (calculateStatistics tcs rows) = length tcs"
  "sum_list (map snd (TestCaseTypeBreakdown (calculateStatistics tcs rows))) = length tcs"
  "sum_list (map snd (SubtypeBreakdown (calculateStatistics tcs rows))) = length tcs"
  by (simp_all add: calculateStatistics_def Let_def sum_fold_increment)

lemma buildResponse_sums:
  "TotalTestCases (Summary (buildResponse req t)) = length (TestCases (buildResponse req t))"
  "sum_list (map snd (TestCaseTypeBreakdown (Summary (buildResponse req t))))
     = TotalTestCases (Summary (buildResponse req t))"
  "sum_list (map snd (SubtypeBreakdown (Summary (buildResponse req t))))
     = TotalTestCases (Summary (buildResponse req t))"
  by (simp_all add: buildResponse_def Let_def calculateStatistics_sums)

lemma writeResults_results:
  "results_json (snd (writeResults st io j r)) (jobKey st j)
     = (if writes io then Some r else results_json st (jobKey st j))"
  by (simp add: writeResults_def writes_def)

lemma other_writes_results:
  "results_json (snd (writeCSVContent st io j c)) = results_json st"
  "results_json (snd (writeMetadata st io j m)) = results_json st"
  "results_json (snd (writeCSVOutput st io j c)) = results_json st"
  by (simp_all add: writeCSVContent_def writeMetadata_def writeCSVOutput_def)

lemma processJob_results:
  "results_json (snd (processJob st env j req)) (jobKey st j) = results_json st (jobKey st j)
   \<or> results_json (snd (processJob st env j req)) (jobKey st j)
       = Some (buildResponse req (generated_clock env))"
proof -
  let ?st1 = "snd (writeJobStatus st (io_processing env) j processing None)"
  have "results_json (snd (writeResults ?st1 (io_results env) j r)) (jobKey st j)
      = (if writes (io_results env) then Some r else results_json st (jobKey st j))" for r
    using writeResults_results [of ?st1 "io_results env" j r]
    by (simp add: writes_keep_jobKey writeJobStatus_frame)
  then show ?thesis
    by (simp add: processJob_def Let_def split_beta writeJobStatus_frame
        other_writes_results split: option.splits)
qed

lemma backgroundTask_results:
  "results_json (snd (backgroundTask st env j req)) (jobKey st j) = results_json st (jobKey st j)
   \<or> results_json (snd (backgroundTask st env j req)) (jobKey st j)
       = Some (buildResponse req (generated_clock env))"
proof -
  obtain r st' where p: "processJob st env j req = (r, st')"
    by (cases "processJob st env j req")
  with processJob_results [of st env j req]
  have "results_json st' (jobKey st j) = results_json st (jobKey st j)
      \<or> results_json st' (jobKey st j) = Some (buildResponse req (generated_clock env))"
    by simp
  with p show ?thesis
    by (cases r) (simp_all add: backgroundTask_def split_beta writeJobStatus_frame)
qed

text \<open>
  C5. Whenever the background task of a job (where no results were stored before) leaves
  results in the store, as it does for every job that completes, their statistics agree
  with their test cases: \<open>TotalTestCases\<close> is the number of test cases, and the counts of
  the type breakdown, and those of the subtype breakdown, add up to \<open>TotalTestCases\<close>.
\<close>

theorem completed_job_statistics:
  assumes "results_json st (jobKey st j) = None"
    and "results_json (snd (backgroundTask st env j req)) (jobKey st j) = Some r"
  shows "TotalTestCases (Summary r) = length (TestCases r)
    \<and> sum_list (map snd (TestCaseTypeBreakdown (Summary r))) = TotalTestCases (Summary r)
    \<and> sum_list (map snd (SubtypeBreakdown (Summary r))) = TotalTestCases (Summary r)"
proof -
  from backgroundTask_results [of st env j req] assms
  have "r = buildResponse req (generated_clock env)"
    by auto
  then show ?thesis
    by (simp only: buildResponse_sums)
qed


text \<open>The theorem at a job of one row, run without failures: three test cases.\<close>

theorem completed_job_statistics_witness:
  "TotalTestCases (Summary (buildResponse rowRequest ''t2'')) = 3
   \<and> sum_list (map snd (TestCaseTypeBreakdown (Summary (buildResponse rowRequest ''t2'')))) = 3
   \<and> sum_list (map snd (SubtypeBreakdown (Summary (buildResponse rowRequest ''t2'')))) = 3"
proof -
  have fresh: "results_json pendingStore (jobKey pendingStore ''job-1'') = None"
    by (simp add: pendingStore_def writeJobStatus_frame emptyStore_def)
  have written: "results_json (snd (backgroundTask pendingStore sampleRun ''job-1'' rowRequest))
        (jobKey pendingStore ''job-1'')
      = Some (buildResponse rowRequest ''t2'')"
    by (simp add: backgroundTask_def processJob_def sampleRun_def nothingForced_def okIO_def
      Let_def split_beta writeResults_def writeCSVOutput_def writeJobStatus_def jobKey_def)
  have len: "length (TestCases (buildResponse rowRequest ''t2'')) = 3"
    by code_simp
  from completed_job_statistics [OF fresh written] len show ?thesis
    by simp
qed

section \<open>Sequences of status writes\<close>

lemma statusWrites_frame:
  "input_csv (statusWrites st j ws) = input_csv st"
  "metadata_json (statusWrites st j ws) = metadata_json st"
  "results_json (statusWrites st j ws) = results_json st"
  "output_csv (statusWrites st j ws) = output_csv st"
  "jobKey (statusWrites st j ws) = jobKey st"
  by (induction st j ws rule: statusWrites.induct)
    (simp_all add: writeJobStatus_frame writes_keep_jobKey)

lemma statusWrites_snoc:
  "statusWrites st j (ws @ [(io, s, err)]) = snd (writeJobStatus (statusWrites st j ws) io j s err)"
  by (induction st j ws rule: statusWrites.induct) simp_all

lemma writeJobStatus_keeps_created:
  assumes "status_json st (jobKey st j) = Some old" "created_at old \<noteq> []" "read_ok io"
  shows "\<exists>sd. status_json (snd (writeJobStatus st io j s err)) (jobKey st j) = Some sd
     \<and> created_at sd = created_at old"
proof (cases "writes io")
  case True
  with assms show ?thesis
    by (simp add: writeJobStatus_writes readJobStatus_def)
next
  case False
  with assms show ?thesis
    by (simp add: writeJobStatus_fails)
qed

lemma statusWrites_keeps_created:
  assumes "jobKey st j = k" "status_json st k = Some old" "created_at old \<noteq> []"
    "\<forall>w \<in> set ws. read_ok (fst w)"
  shows "\<exists>sd. status_json (statusWrites st j ws) k = Some sd \<and> created_at sd = created_at old"
  using assms
proof (induction st j ws arbitrary: old rule: statusWrites.induct)
  case (1 st j)
  then show ?case by simp
next
  case (2 st j io s err ws)
  let ?st1 = "snd (writeJobStatus st io j s err)"
  from "2.prems" have "read_ok io" "status_json st (jobKey st j) = Some old" by simp_all
  with "2.prems" obtain sd where
    sd: "status_json ?st1 k = Some sd" "created_at sd = created_at old"
    using writeJobStatus_keeps_created [of st j old io s err] by auto
  have key: "jobKey ?st1 j = k"
    using "2.prems"(1) by (simp add: writes_keep_jobKey)
  from sd "2.prems" have
    "\<exists>sd'. status_json (statusWrites ?st1 j ws) k = Some sd' \<and> created_at sd' = created_at sd"
    by (intro "2.IH" key) simp_all
  with sd show ?case by simp
qed

text \<open>
  C8, as amended. Take a job without a status record, a first status write that succeeds
  (its clock reading, an ISO timestamp, is not the empty string), and any later status
  writes each of which can read the existing record back. Then
  \<open>created_at\<close> is still the time the first write stamped. A further status write that
  succeeds sets \<open>updated_at\<close> to its own reading of the clock; one that fails leaves the
  store as it was. No status write changes the input, the metadata, the results or the
  output of any job.
\<close>

theorem status_writes_keep_created_at:
  assumes "status_json st (jobKey st j) = None"
    and "writes io1" and "clock0 io1 \<noteq> []"
    and "\<forall>w \<in> set ws. read_ok (fst w)"
  shows "(\<exists>sd. status_json (statusWrites st j ((io1, s1, e1) # ws)) (jobKey st j) = Some sd
          \<and> created_at sd = clock0 io1)
    \<and> map_option updated_at (status_json (statusWrites st j [(io1, s1, e1)]) (jobKey st j)) = Some (clock io1)
    \<and> (\<forall>io s err. writes io \<longrightarrow>
          map_option updated_at
            (status_json (statusWrites st j ((io1, s1, e1) # ws @ [(io, s, err)])) (jobKey st j)) = Some (clock io))
    \<and> (\<forall>io s err. \<not> writes io \<longrightarrow>
          statusWrites st j ((io1, s1, e1) # ws @ [(io, s, err)])
            = statusWrites st j ((io1, s1, e1) # ws))
    \<and> input_csv (statusWrites st j ((io1, s1, e1) # ws)) = input_csv st
    \<and> metadata_json (statusWrites st j ((io1, s1, e1) # ws)) = metadata_json st
    \<and> results_json (statusWrites st j ((io1, s1, e1) # ws)) = results_json st
    \<and> output_csv (statusWrites st j ((io1, s1, e1) # ws)) = output_csv st"
proof -
  let ?st1 = "snd (writeJobStatus st io1 j s1 e1)"
  have first: "\<exists>sd. status_json ?st1 (jobKey st j) = Some sd \<and> created_at sd = clock0 io1"
    using assms(1,2) by (simp add: writeJobStatus_writes readJobStatus_def)
  then obtain old where old: "status_json ?st1 (jobKey st j) = Some old" "created_at old = clock0 io1"
    by blast
  with assms(3) have "created_at old \<noteq> []" by simp
  from statusWrites_keeps_created [OF _ old(1) this assms(4), of j]
    writes_keep_jobKey(1) [of st io1 j s1 e1] old(2)
  have created: "\<exists>sd. status_json (statusWrites st j ((io1, s1, e1) # ws)) (jobKey st j) = Some sd
      \<and> created_at sd = clock0 io1"
    by simp
  have snoc: "statusWrites st j ((io1, s1, e1) # ws @ [(io, s, err)])
      = snd (writeJobStatus (statusWrites st j ((io1, s1, e1) # ws)) io j s err)" for io s err
    using statusWrites_snoc [of st j "(io1, s1, e1) # ws" io s err] by simp
  have updated: "map_option updated_at
      (status_json (statusWrites st j ((io1, s1, e1) # ws @ [(io, s, err)])) (jobKey st j)) = Some (clock io)"
    if "writes io" for io s err
    unfolding snoc using that
    by (simp add: writeJobStatus_writes statusWrites_frame(5) writes_keep_jobKey)
  have unchanged: "statusWrites st j ((io1, s1, e1) # ws @ [(io, s, err)])
      = statusWrites st j ((io1, s1, e1) # ws)"
    if "\<not> writes io" for io s err
    unfolding snoc using that by (simp add: writeJobStatus_fails)
  have first_updated:
    "map_option updated_at (status_json (statusWrites st j [(io1, s1, e1)]) (jobKey st j)) = Some (clock io1)"
    using assms(2) by (simp add: writeJobStatus_writes)
  from created first_updated updated unchanged show ?thesis
    by (simp add: statusWrites_frame writeJobStatus_frame)
qed

text \<open>The theorem at the three status writes of a job that completes.\<close>

theorem status_writes_keep_created_at_witness:
  "map_option created_at (status_json (statusWrites emptyStore ''job-1''
       [(okIO ''t0'', pending, None), (okIO ''t1'', processing, None),
        (okIO ''t4'', completed, None)]) (jobKey emptyStore ''job-1'')) = Some ''t0''"
proof -
  have a: "status_json emptyStore (jobKey emptyStore ''job-1'') = None"
    by (simp add: emptyStore_def)
  have b: "writes (okIO ''t0'')" "clock0 (okIO ''t0'') \<noteq> []"
    by (simp_all add: writes_def okIO_def)
  have c: "\<forall>w \<in> set [(okIO ''t1'', processing, None), (okIO ''t4'', completed, None)]. read_ok (fst w)"
    by (simp add: okIO_def)
  from status_writes_keep_created_at [OF a b c, of pending None]
  have "\<exists>sd. status_json (statusWrites emptyStore ''job-1''
       [(okIO ''t0'', pending, None), (okIO ''t1'', processing, None),
        (okIO ''t4'', completed, None)]) (jobKey emptyStore ''job-1'') = Some sd \<and> created_at sd = clock0 (okIO ''t0'')"
    by (rule conjunct1)
  then show ?thesis
    by (auto simp: okIO_def)
qed

text \<open>
  C8 as stated fails: a status write that cannot read \<open>status.json\<close> back takes the job
  for a new one and stamps the current time as \<open>created_at\<close>.
\<close>

theorem status_writes_created_at_counterexample:
  "map_option created_at (status_json (statusWrites emptyStore ''job-1''
       [(okIO ''t0'', pending, None)]) (jobKey emptyStore ''job-1'')) = Some ''t0''
   \<and> map_option created_at (status_json (statusWrites emptyStore ''job-1''
       [(okIO ''t0'', pending, None), ((okIO ''t1'')\<lparr>read_ok := False\<rparr>, processing, None)])
       (jobKey emptyStore ''job-1''))
     = Some ''t1''"
  by (simp add: writeJobStatus_def readJobStatus_def okIO_def emptyStore_def jobKey_def)

section \<open>The derived CSV artifact\<close>

lemma join_Cons: "join sep (x # xs) = x @ concat (map (\<lambda>y. sep @ y) xs)"
  by (induction xs arbitrary: x) simp_all

lemma doubleQuotes_concat: "doubleQuotes v = concat (map (\<lambda>c. if c = DQ then [DQ, DQ] else [c]) v)"
  by (induction v) simp_all

lemma escapeCSV_spec: "escapeCSV v = specField v"
  by (simp add: escapeCSV_def specField_def doubleQuotes_concat)

lemma join_csvRow: "join '','' (csvRow tc) = specLine tc"
  by (simp add: csvRow_def specLine_def escapeCSV_spec)

lemma join_csvHeaders:
  "join '','' csvHeaders = ''TestCaseID,TestDescription,TestSteps,ExpectedResults,TestCaseType,Subtype''"
  by (simp add: csvHeaders_def)

text \<open>
  C9. For every list of test cases the derived CSV is the header row
  \<open>TestCaseID,TestDescription,TestSteps,ExpectedResults,TestCaseType,Subtype\<close> followed,
  for each test case in order, by a newline and the line of that test case, its fields
  quoted as the specification says.
\<close>

theorem derived_csv_format:
  "generateCSV testCases =
     ''TestCaseID,TestDescription,TestSteps,ExpectedResults,TestCaseType,Subtype''
       @ concat (map (\<lambda>tc. NL # specLine tc) testCases)"
  by (simp add: generateCSV_def Let_def join_Cons join_csvHeaders join_csvRow comp_def)

text \<open>The theorem at a test case with a comma, a newline and a quoted word in its fields.\<close>

theorem derived_csv_format_witness:
  "generateCSV [quotedCase] =
     ''TestCaseID,TestDescription,TestSteps,ExpectedResults,TestCaseType,Subtype''
       @ NL # ''B_1_TC_001_functional_positive,'' @ DQ # ''a, b'' @ DQ # '','' @ DQ # ''1. x''
       @ NL # ''2. y'' @ DQ # '','' @ DQ # ''say '' @ DQ # DQ # ''ok'' @ DQ # DQ # DQ
       # '',FUNCTIONAL,POSITIVE''"
proof -
  have "specLine quotedCase = ''B_1_TC_001_functional_positive,'' @ DQ # ''a, b'' @ DQ # '','' @ DQ # ''1. x''
       @ NL # ''2. y'' @ DQ # '','' @ DQ # ''say '' @ DQ # DQ # ''ok'' @ DQ # DQ # DQ
       # '',FUNCTIONAL,POSITIVE''"
    by (simp add: specLine_def specField_def quotedCase_def NL_def DQ_def)
  with derived_csv_format [of "[quotedCase]"] show ?thesis
    by simp
qed

section \<open>The number of test cases\<close>

lemma split_lines_single: "NL \<notin> set s \<Longrightarrow> split_lines s = [s]"
  unfolding split_lines_def by (induction s) auto

lemma parseCSV_header_only: "NL \<notin> set (trim csv) \<Longrightarrow> parseCSV csv = []"
  by (simp add: parseCSV_def Let_def split_lines_single)

lemma generate_Nil: "generateTestCasesFromCSV [] b = []"
  by (simp add: generateTestCasesFromCSV_def)

lemma buildResponse_header_only:
  assumes "NL \<notin> set (trim (csv_mapping req))"
  shows "TestCases (buildResponse req t) = []" "TotalTestCases (Summary (buildResponse req t)) = 0"
  using assms
  by (simp_all add: buildResponse_def Let_def parseCSV_header_only generate_Nil
      calculateStatistics_sums)

lemma firstForced_None:
  "firstForced env = None \<longleftrightarrow> forced env ParseCSV = None \<and> forced env GenerateCases = None
     \<and> forced env Statistics = None \<and> forced env DeriveCSV = None"
  by (auto simp: firstForced_def split: option.splits)

lemma other_writes_output_status:
  "status_json (snd (writeCSVOutput st io j c)) = status_json st"
  "results_json (snd (writeCSVOutput st io j c)) = results_json st"
  by (simp_all add: writeCSVOutput_def)

lemma backgroundTask_unforced:
  assumes "firstForced env = None"
  shows "fst (backgroundTask st env j req) = Inr ()"
    "writes (io_results env) \<Longrightarrow>
       results_json (snd (backgroundTask st env j req)) (jobKey st j)
         = Some (buildResponse req (generated_clock env))"
    "writes (io_completed env) \<Longrightarrow>
       \<exists>sd. status_json (snd (backgroundTask st env j req)) (jobKey st j) = Some sd
          \<and> status sd = completed \<and> error sd = None"
proof -
  let ?st1 = "snd (writeJobStatus st (io_processing env) j processing None)"
  from assms show "fst (backgroundTask st env j req) = Inr ()"
    by (simp add: backgroundTask_returns)
  have written: "results_json (snd (writeResults ?st1 (io_results env) j r)) (jobKey st j) = Some r"
    if "writes (io_results env)" for r
    using that writeResults_results [of ?st1 "io_results env" j r]
    by (simp add: writes_keep_jobKey)
  from assms show "results_json (snd (backgroundTask st env j req)) (jobKey st j)
         = Some (buildResponse req (generated_clock env))" if "writes (io_results env)"
    using written [OF that]
    by (simp add: firstForced_None backgroundTask_def processJob_def Let_def split_beta
        writeJobStatus_frame other_writes_results)
  from assms show "\<exists>sd. status_json (snd (backgroundTask st env j req)) (jobKey st j) = Some sd
          \<and> status sd = completed \<and> error sd = None" if "writes (io_completed env)"
    using that
    by (simp add: firstForced_None backgroundTask_def processJob_def Let_def split_beta
        writeJobStatus_writes writes_keep_jobKey)
qed

lemma rowCases_regression:
  "length (filter (\<lambda>tc. TestCaseType tc = ''REGRESSION'' \<and> Subtype tc = ''POSITIVE'') (rowCases b i c r))
     = (if (i + 1) mod 3 = 0 then 1 else 0)"
  "\<forall>tc \<in> set (rowCases b i c r). TestCaseType tc = ''REGRESSION'' \<longrightarrow> Subtype tc = ''POSITIVE''"
proof -
  obtain fp fn e rest where shape:
    "rowCases b i c r = fp # fn # e # rest"
    "TestCaseType fp = ''FUNCTIONAL''" "TestCaseType fn = ''FUNCTIONAL''" "TestCaseType e = ''EDGE''"
    "\<forall>x \<in> set rest. TestCaseType x = ''REGRESSION'' \<and> Subtype x = ''POSITIVE''"
    "length rest = (if (i + 1) mod 3 = 0 then 1 else 0)"
    using rowCases_shape [of b i c r] by blast
  from shape(5) have "filter (\<lambda>tc. TestCaseType tc = ''REGRESSION'' \<and> Subtype tc = ''POSITIVE'') rest = rest"
    by (simp add: filter_id_conv)
  with shape(2,3,4,6)
  show "length (filter (\<lambda>tc. TestCaseType tc = ''REGRESSION'' \<and> Subtype tc = ''POSITIVE'') (rowCases b i c r))
     = (if (i + 1) mod 3 = 0 then 1 else 0)"
    unfolding shape(1) by simp
  from shape(2,3,4,5)
  show "\<forall>tc \<in> set (rowCases b i c r). TestCaseType tc = ''REGRESSION'' \<longrightarrow> Subtype tc = ''POSITIVE''"
    unfolding shape(1) by auto
qed

text \<open>
  C10, as amended. For \<open>n\<close> mapping rows the generator produces \<open>3 * n + n div 3\<close> test
  cases: the block of the row at position \<open>i\<close> (from 0) has three test cases, and a
  fourth, of type REGRESSION and subtype POSITIVE, exactly when \<open>i + 1\<close> is divisible by 3.
  A CSV without a line break after trimming, that is a header row alone, yields no test
  cases; when no step of its task raises and the writes of the results and of the
  \<open>completed\<close> status succeed, the job ends \<open>completed\<close>, with results that hold zero
  test cases.
\<close>

theorem testcase_count:
  "length (generateTestCasesFromCSV rows b) = 3 * length rows + length rows div 3
   \<and> (\<exists>blks. generateTestCasesFromCSV rows b = concat blks \<and> length blks = length rows \<and>
        (\<forall>i < length rows.
           length (blks ! i) = (if (i + 1) mod 3 = 0 then 4 else 3) \<and>
           length (filter (\<lambda>tc. TestCaseType tc = ''REGRESSION'' \<and> Subtype tc = ''POSITIVE'') (blks ! i))
             = (if (i + 1) mod 3 = 0 then 1 else 0) \<and>
           (\<forall>tc \<in> set (blks ! i). TestCaseType tc = ''REGRESSION'' \<longrightarrow> Subtype tc = ''POSITIVE'')))
   \<and> (NL \<notin> set (trim (csv_mapping req)) \<longrightarrow>
        generateTestCasesFromCSV (parseCSV (csv_mapping req)) (batch_number req) = [] \<and>
        (firstForced env = None \<and> writes (io_results env) \<and> writes (io_completed env) \<longrightarrow>
           (\<exists>r. results_json (snd (backgroundTask st env j req)) (jobKey st j) = Some r
               \<and> TestCases r = [] \<and> TotalTestCases (Summary r) = 0) \<and>
           (\<exists>sd. status_json (snd (backgroundTask st env j req)) (jobKey st j) = Some sd
               \<and> status sd = completed \<and> error sd = None)))"
proof (intro conjI)
  show "length (generateTestCasesFromCSV rows b) = 3 * length rows + length rows div 3"
    using length_concat_blocks [of b 0 1 rows] by (simp add: generate_blocks)
next
  let ?blks = "blocks b 0 1 rows"
  have row: "length (?blks ! i) = (if (i + 1) mod 3 = 0 then 4 else 3) \<and>
      length (filter (\<lambda>tc. TestCaseType tc = ''REGRESSION'' \<and> Subtype tc = ''POSITIVE'') (?blks ! i))
        = (if (i + 1) mod 3 = 0 then 1 else 0) \<and>
      (\<forall>tc \<in> set (?blks ! i). TestCaseType tc = ''REGRESSION'' \<longrightarrow> Subtype tc = ''POSITIVE'')"
    if "i < length rows" for i
  proof -
    from that obtain c' where blk: "?blks ! i = rowCases b (0 + i) c' (rows ! i)"
      using blocks_nth by blast
    show ?thesis
      unfolding blk
      using rowCases_regression [of b "0 + i" c' "rows ! i"] length_rowCases [of b "0 + i" c' "rows ! i"]
      by simp
  qed
  have "generateTestCasesFromCSV rows b = concat ?blks \<and> length ?blks = length rows"
    by (simp add: generate_blocks length_blocks)
  with row show "\<exists>blks. generateTestCasesFromCSV rows b = concat blks \<and> length blks = length rows \<and>
        (\<forall>i < length rows.
           length (blks ! i) = (if (i + 1) mod 3 = 0 then 4 else 3) \<and>
           length (filter (\<lambda>tc. TestCaseType tc = ''REGRESSION'' \<and> Subtype tc = ''POSITIVE'') (blks ! i))
             = (if (i + 1) mod 3 = 0 then 1 else 0) \<and>
           (\<forall>tc \<in> set (blks ! i). TestCaseType tc = ''REGRESSION'' \<longrightarrow> Subtype tc = ''POSITIVE''))"
    by blast
next
  show "NL \<notin> set (trim (csv_mapping req)) \<longrightarrow>
        generateTestCasesFromCSV (parseCSV (csv_mapping req)) (batch_number req) = [] \<and>
        (firstForced env = None \<and> writes (io_results env) \<and> writes (io_completed env) \<longrightarrow>
           (\<exists>r. results_json (snd (backgroundTask st env j req)) (jobKey st j) = Some r
               \<and> TestCases r = [] \<and> TotalTestCases (Summary r) = 0) \<and>
           (\<exists>sd. status_json (snd (backgroundTask st env j req)) (jobKey st j) = Some sd
               \<and> status sd = completed \<and> error sd = None))"
    by (simp add: parseCSV_header_only generate_Nil backgroundTask_unforced
        buildResponse_header_only)
qed

text \<open>The theorem at four rows, and at the run of a job whose CSV is a header row.\<close>

theorem testcase_count_witness:
  "length (generateTestCasesFromCSV [[], [], [], []] ''001'') = 13
   \<and> (\<exists>r. results_json (snd (backgroundTask pendingStore sampleRun ''job-1'' sampleRequest))
            (jobKey pendingStore ''job-1'') = Some r
          \<and> TestCases r = [] \<and> TotalTestCases (Summary r) = 0)
   \<and> (\<exists>sd. status_json (snd (backgroundTask pendingStore sampleRun ''job-1'' sampleRequest))
            (jobKey pendingStore ''job-1'') = Some sd
          \<and> status sd = completed \<and> error sd = None)"
proof -
  have header: "NL \<notin> set (trim (csv_mapping sampleRequest))"
    by code_simp
  have unforced: "firstForced sampleRun = None"
    by (simp add: firstForced_def sampleRun_def nothingForced_def)
  have ok: "writes (io_results sampleRun)" "writes (io_completed sampleRun)"
    by (simp_all add: writes_def sampleRun_def okIO_def)
  from testcase_count [of "[[], [], [], []]" "''001''" sampleRequest sampleRun pendingStore "''job-1''"]
    header unforced ok
  show ?thesis
    by simp
qed

text \<open>
  C10 as stated fails in its last clause: for a CSV that is a header row alone, a run in
  which writing the \<open>completed\<close> status raises leaves the job \<open>processing\<close>.
\<close>

theorem header_only_job_counterexample:
  "NL \<notin> set (trim (csv_mapping sampleRequest))
   \<and> statusRoute (snd (backgroundTask pendingStore
        (sampleRun\<lparr>io_completed := (okIO ''t4'')\<lparr>write_ok := False\<rparr>\<rparr>) ''job-1'' sampleRequest))
        True ''job-1''
     = StatusOk \<lparr>status = processing, created_at = ''t0'', updated_at = ''t1'', error = None\<rparr>"
proof -
  have header: "NL \<notin> set (trim (csv_mapping sampleRequest))"
    by code_simp
  have "statusRoute (snd (backgroundTask pendingStore
        (sampleRun\<lparr>io_completed := (okIO ''t4'')\<lparr>write_ok := False\<rparr>\<rparr>) ''job-1'' sampleRequest))
        True ''job-1''
     = StatusOk \<lparr>status = processing, created_at = ''t0'', updated_at = ''t1'', error = None\<rparr>"
    by (simp add: backgroundTask_def processJob_def sampleRun_def nothingForced_def okIO_def
      Let_def split_beta writeResults_def writeCSVOutput_def writeJobStatus_def
      readJobStatus_def pendingStore_def emptyStore_def statusRoute_def jobKey_def)
  with header show ?thesis ..
qed

end
